theory Spec2Isabelle
  imports Main "HOL-Library.AList" "HOL-Library.Sublist"
begin

section \<open>Python values, errors and strings\<close>

text \<open>
  The cells of the data frame, the trace labels of the figure and the coordinates of a hover
  event are dynamically typed Python objects. The embedding keeps the dynamic types the
  program distinguishes: \<open>str\<close>, \<open>int\<close>, \<open>bool\<close> and the missing value. Floating point
  cells are left out. A string is a list of code points below 256.
\<close>

datatype pyval = PStr string | PInt int | PBool bool | PNone

text \<open>
  Every exception the modelled code can raise is a value. \<open>RenderError\<close> stands for whatever
  RDKit raises when \<open>MolFromSmiles\<close> or \<open>DrawMolecule\<close> rejects its argument.
\<close>

datatype error = KeyError | IndexError | ValueError | TypeError | AttributeError | RenderError

text \<open>The integer a \<open>bool\<close> or \<open>int\<close> object counts as (\<open>bool\<close> is a subclass of \<open>int\<close>).\<close>

fun as_number :: "pyval \<Rightarrow> int option" where
  "as_number (PInt i) = Some i"
| "as_number (PBool b) = Some (if b then 1 else 0)"
| "as_number _ = None"

text \<open>
  The element-wise \<open>==\<close> of a pandas column against a scalar: strings equal strings, numbers
  compare by value, and a missing value equals nothing.
\<close>

fun pd_eq :: "pyval \<Rightarrow> pyval \<Rightarrow> bool" where
  "pd_eq (PStr a) (PStr b) = (a = b)"
| "pd_eq PNone _ = False"
| "pd_eq _ PNone = False"
| "pd_eq (PStr _) _ = False"
| "pd_eq _ (PStr _) = False"
| "pd_eq a b = (as_number a = as_number b)"

text \<open>\<open>str.lower\<close> on code points below 256.\<close>

definition lower_char :: "char \<Rightarrow> char" where
  "lower_char c =
     (let n = (of_char c :: nat)
      in if (65 \<le> n \<and> n \<le> 90) \<or> (192 \<le> n \<and> n \<le> 222 \<and> n \<noteq> 215)
         then char_of (n + 32) else c)"

definition lower :: "string \<Rightarrow> string" where
  "lower s = map lower_char s"

text \<open>\<open>str(v)\<close>, which is also what an f-string replacement field \<open>{v}\<close> produces.\<close>

fun digits :: "nat \<Rightarrow> string" where
  "digits n = (if n < 10 then [char_of (48 + n)] else digits (n div 10) @ [char_of (48 + n mod 10)])"

fun py_str :: "pyval \<Rightarrow> string" where
  "py_str (PStr s) = s"
| "py_str (PInt i) = (if i < 0 then CHR ''-'' # digits (nat (- i)) else digits (nat i))"
| "py_str (PBool b) = (if b then ''True'' else ''False'')"
| "py_str PNone = ''None''"

text \<open>\<open>xs[i]\<close> on a sequence: a negative index counts from the end, out of range raises.\<close>

definition py_index :: "'a list \<Rightarrow> int \<Rightarrow> error + 'a" where
  "py_index xs i =
     (if 0 \<le> i \<and> i < int (length xs) then Inr (xs ! nat i)
      else if i < 0 \<and> - int (length xs) \<le> i then Inr (xs ! nat (int (length xs) + i))
      else Inl IndexError)"

text \<open>\<open>s[:k]\<close>: a negative bound counts from the end.\<close>

definition py_prefix :: "'a list \<Rightarrow> int \<Rightarrow> 'a list" where
  "py_prefix xs k = (if k < 0 then take (nat (int (length xs) + k)) xs else take (nat k) xs)"

text \<open>
  A dict built by \<open>{index: ... for index, x in enumerate(...)}\<close> has the keys \<open>0 .. n-1\<close>; it is
  kept as the list of its values. Unlike list indexing, a key outside \<open>0 .. n-1\<close> is a
  \<open>KeyError\<close>.
\<close>

definition dict_get :: "'a list \<Rightarrow> int \<Rightarrow> error + 'a" where
  "dict_get d k = (if 0 \<le> k \<and> k < int (length d) then Inr (d ! nat k) else Inl KeyError)"

section \<open>str2bool\<close>

text \<open>\<open>str2bool(v)\<close>, lines 22-23. An object without a \<open>lower\<close> method raises.\<close>

fun str2bool :: "pyval \<Rightarrow> error + bool" where
  "str2bool (PStr v) = Inr (lower v \<in> set [''yes'', ''true'', ''t'', ''1''])"
| "str2bool _ = Inl AttributeError"

section \<open>Data frames\<close>

text \<open>
  A pandas \<open>DataFrame\<close>: the named columns with their dtype, and the rows in order, each
  with its index label. A row holds its cells by column name; a cell that is not there reads
  as the missing value.
\<close>

datatype dtype = DBool | DInt | DOther

type_synonym row = "(string \<times> pyval) list"

record dataframe =
  columns :: "(string \<times> dtype) list"
  rows :: "(int \<times> row) list"

definition cell :: "row \<Rightarrow> string \<Rightarrow> pyval" where
  "cell r c = (case map_of r c of Some v \<Rightarrow> v | None \<Rightarrow> PNone)"

definition has_column :: "dataframe \<Rightarrow> string \<Rightarrow> bool" where
  "has_column df c = (c \<in> set (map fst (columns df)))"

text \<open>\<open>df[c].dtype\<close>.\<close>

definition column_dtype :: "dataframe \<Rightarrow> string \<Rightarrow> error + dtype" where
  "column_dtype df c = (case map_of (columns df) c of Some t \<Rightarrow> Inr t | None \<Rightarrow> Inl KeyError)"

text \<open>\<open>df[df[c] == v]\<close>: the rows whose cell in column \<open>c\<close> equals \<open>v\<close>, in their order.\<close>

definition select_eq :: "dataframe \<Rightarrow> string \<Rightarrow> pyval \<Rightarrow> error + dataframe" where
  "select_eq df c v =
     (if has_column df c
      then Inr (df\<lparr>rows := filter (\<lambda>lr. pd_eq (cell (snd lr) c) v) (rows df)\<rparr>)
      else Inl KeyError)"

text \<open>\<open>df.reset_index(drop=True)\<close>: the labels become the positions.\<close>

definition reset_index :: "dataframe \<Rightarrow> dataframe" where
  "reset_index df = df\<lparr>rows := zip (map int [0 ..< length (rows df)]) (map snd (rows df))\<rparr>"

text \<open>\<open>df.iloc[num]\<close>: the row at a position.\<close>

definition iloc :: "dataframe \<Rightarrow> int \<Rightarrow> error + (int \<times> row)" where
  "iloc df num = py_index (rows df) num"

text \<open>\<open>df_row[c]\<close> on a row of \<open>df\<close>: the cell, a \<open>KeyError\<close> when \<open>df\<close> has no such column.\<close>

definition row_get :: "dataframe \<Rightarrow> row \<Rightarrow> string \<Rightarrow> error + pyval" where
  "row_get df r c = (if has_column df c then Inr (cell r c) else Inl KeyError)"

text \<open>\<open>df[cols]\<close>: the frame restricted to the listed columns.\<close>

definition select_columns :: "dataframe \<Rightarrow> string list \<Rightarrow> error + dataframe" where
  "select_columns df cols =
     (if \<forall>c \<in> set cols. has_column df c
      then Inr \<lparr>columns = map (\<lambda>c. (c, case map_of (columns df) c of Some t \<Rightarrow> t | None \<Rightarrow> DOther)) cols,
                rows = map (\<lambda>lr. (fst lr, map (\<lambda>c. (c, cell (snd lr) c)) cols)) (rows df)\<rparr>
      else Inl KeyError)"

text \<open>
  \<open>df.loc[i, c] = v\<close>: every row labelled \<open>i\<close> gets the cell; a column that was not there is
  created, and reads as missing in the other rows.
\<close>

definition set_loc :: "dataframe \<Rightarrow> int \<Rightarrow> string \<Rightarrow> pyval \<Rightarrow> dataframe" where
  "set_loc df i c v =
     \<lparr>columns = (if has_column df c then columns df else columns df @ [(c, DOther)]),
      rows = map (\<lambda>lr. if fst lr = i then (fst lr, AList.update c v (snd lr)) else lr) (rows df)\<rparr>"

section \<open>textwrap.fill\<close>

text \<open>
  The title is wrapped by \<open>textwrap.fill(title, width=wraplen)\<close> of the Python standard
  library (\<open>Lib/textwrap.py\<close>, Python 3.11), with every other option of \<open>TextWrapper\<close> at its
  default: \<open>expand_tabs\<close>, \<open>replace_whitespace\<close>, \<open>drop_whitespace\<close>, \<open>break_long_words\<close> and
  \<open>break_on_hyphens\<close> on, \<open>tabsize = 8\<close>, no indents, \<open>fix_sentence_endings\<close> off and
  \<open>max_lines = None\<close>. The character classes are those of Python on code points below 256.
\<close>

definition code_in :: "char \<Rightarrow> (nat \<times> nat) list \<Rightarrow> bool" where
  "code_in c ranges = (\<exists>r \<in> set ranges. fst r \<le> of_char c \<and> (of_char c :: nat) \<le> snd r)"

text \<open>\<open>_whitespace = '\t\n\x0b\x0c\r '\<close>.\<close>

definition is_ws :: "char \<Rightarrow> bool" where
  "is_ws c = code_in c [(9, 13), (32, 32)]"

text \<open>The characters \<open>str.strip()\<close> removes.\<close>

definition is_space :: "char \<Rightarrow> bool" where
  "is_space c = code_in c [(9, 13), (28, 32), (133, 133), (160, 160)]"

text \<open>The regular expression classes \<open>\d\<close>, \<open>\w\<close>, \<open>letter = [^\d\W]\<close> and
  \<open>word_punct = [\w!"'&.,?]\<close>.\<close>

definition is_digit :: "char \<Rightarrow> bool" where
  "is_digit c = code_in c [(48, 57)]"

definition is_word_char :: "char \<Rightarrow> bool" where
  "is_word_char c = code_in c [(48, 57), (65, 90), (95, 95), (97, 122), (170, 170), (178, 179),
     (181, 181), (185, 186), (188, 190), (192, 214), (216, 246), (248, 255)]"

definition is_letter :: "char \<Rightarrow> bool" where
  "is_letter c = (is_word_char c \<and> \<not> is_digit c)"

definition is_word_punct :: "char \<Rightarrow> bool" where
  "is_word_punct c =
     (is_word_char c \<or>
      c \<in> set [CHR ''!'', CHR 0x22, CHR 0x27, CHR ''&'', CHR ''.'', CHR '','', CHR ''?''])"

text \<open>\<open>str.expandtabs(tabsize)\<close>; \<open>j\<close> is the column, reset by a line feed or carriage return.\<close>

fun expandtabs :: "nat \<Rightarrow> nat \<Rightarrow> string \<Rightarrow> string" where
  "expandtabs tabsize j [] = []"
| "expandtabs tabsize j (c # cs) =
     (if c = CHR 0x09
      then (if tabsize > 0
            then replicate (tabsize - j mod tabsize) CHR '' '' @
                 expandtabs tabsize (j + (tabsize - j mod tabsize)) cs
            else expandtabs tabsize j cs)
      else c # expandtabs tabsize (if c = CHR 0x0A \<or> c = CHR 0x0D then 0 else Suc j) cs)"

text \<open>\<open>_munge_whitespace\<close>: tabs expanded, then every whitespace character made a space.\<close>

definition munge_whitespace :: "string \<Rightarrow> string" where
  "munge_whitespace text = map (\<lambda>c. if is_ws c then CHR '' '' else c) (expandtabs 8 0 text)"

text \<open>
  \<open>_split\<close> cuts the text at the matches of \<open>wordsep_re\<close>, which has three alternatives: a
  run of whitespace; an em-dash \<open>(?<=wp) -{2,} (?=\w)\<close>; a word, taken lazily up to a hyphen
  inside a compound, to the end of the word, or to an em-dash. The alternatives cover every
  position, so the chunks are the successive matches. The matcher reads the text before the
  position (most recent character first) for the look-behinds.

  \<open>letter_pair\<close> is the look-ahead \<open>letter -? letter\<close>, and read on the reversed text before
  the hyphen it is the look-behind \<open>letter{2}-\<close> or \<open>letter-letter-\<close>.
\<close>

fun letter_pair :: "string \<Rightarrow> bool" where
  "letter_pair (a # b # cs) =
     (is_letter a \<and> (is_letter b \<or> (b = CHR ''-'' \<and> (case cs of c # _ \<Rightarrow> is_letter c | [] \<Rightarrow> False))))"
| "letter_pair _ = False"

text \<open>The look-ahead \<open>-{2,}\w\<close>.\<close>

definition emdash_ahead :: "string \<Rightarrow> bool" where
  "emdash_ahead s =
     (let n = length (takeWhile (\<lambda>c. c = CHR ''-'') s)
      in 2 \<le> n \<and> (case drop n s of c # _ \<Rightarrow> is_word_char c | [] \<Rightarrow> False))"

text \<open>The look-behind \<open>(?<=wp)\<close>.\<close>

definition after_word_punct :: "string \<Rightarrow> bool" where
  "after_word_punct bef = (case bef of b # _ \<Rightarrow> is_word_punct b | [] \<Rightarrow> False)"

text \<open>How many further characters the word alternative takes, its first character taken.\<close>

fun word_end :: "string \<Rightarrow> string \<Rightarrow> nat" where
  "word_end bef [] = 0"
| "word_end bef (c # cs) =
     (if c = CHR ''-'' \<and> letter_pair bef \<and> letter_pair cs then 1
      else if is_ws c then 0
      else if after_word_punct bef \<and> emdash_ahead (c # cs) then 0
      else Suc (word_end (c # bef) cs))"

text \<open>How many characters after \<open>c\<close> the match starting at \<open>c\<close> takes.\<close>

definition match_more :: "string \<Rightarrow> char \<Rightarrow> string \<Rightarrow> nat" where
  "match_more bef c cs =
     (if is_ws c then length (takeWhile is_ws cs)
      else if after_word_punct bef \<and> emdash_ahead (c # cs)
           then length (takeWhile (\<lambda>d. d = CHR ''-'') cs)
      else word_end (c # bef) cs)"

fun split_from :: "string \<Rightarrow> string \<Rightarrow> string list" where
  "split_from bef [] = []"
| "split_from bef (c # cs) =
     (c # take (match_more bef c cs) cs) #
       split_from (rev (take (match_more bef c cs) cs) @ c # bef) (drop (match_more bef c cs) cs)"

text \<open>\<open>_split_chunks\<close>.\<close>

definition split_chunks :: "string \<Rightarrow> string list" where
  "split_chunks text = split_from [] (munge_whitespace text)"

text \<open>\<open>chunk.strip() == ''\<close>.\<close>

definition is_blank :: "string \<Rightarrow> bool" where
  "is_blank s = list_all is_space s"

text \<open>\<open>s.rfind('-')\<close>, \<open>None\<close> for -1.\<close>

definition rfind_hyphen :: "string \<Rightarrow> nat option" where
  "rfind_hyphen s =
     (case filter (\<lambda>i. s ! i = CHR ''-'') (rev [0 ..< length s]) of [] \<Rightarrow> None | i # _ \<Rightarrow> Some i)"

text \<open>
  \<open>_handle_long_word\<close> with \<open>break_long_words\<close> and \<open>break_on_hyphens\<close>: where the chunk is cut.
  \<open>chunk.rfind('-', 0, space_left)\<close> searches \<open>chunk[:space_left]\<close>.
\<close>

definition break_end :: "string \<Rightarrow> int \<Rightarrow> int" where
  "break_end chunk space_left =
     (if int (length chunk) > space_left
      then (case rfind_hyphen (py_prefix chunk space_left) of
              Some hyphen \<Rightarrow>
                if hyphen > 0 \<and> (\<exists>c \<in> set (take hyphen chunk). c \<noteq> CHR ''-'')
                then int hyphen + 1 else space_left
            | None \<Rightarrow> space_left)
      else space_left)"

text \<open>The chunks are kept in reading order: the next chunk is the head of the list, where
  the source pops it from the end of the reversed list. The result is the line so far and
  the chunks left, the first of them cut.\<close>

definition handle_long_word :: "nat \<Rightarrow> string \<Rightarrow> string list \<Rightarrow> string list \<Rightarrow> nat \<Rightarrow> string list \<times> string list" where
  "handle_long_word width chunk chunks cur_line cur_len =
     (let space_left = (if width < 1 then 1 else int width - int cur_len);
          end = break_end chunk space_left
      in (cur_line @ [py_prefix chunk end], drop (length (py_prefix chunk end)) chunk # chunks))"

text \<open>The inner loop of \<open>_wrap_chunks\<close>: chunks are moved to the line while they fit.\<close>

fun take_fitting :: "nat \<Rightarrow> string list \<Rightarrow> nat \<Rightarrow> string list \<Rightarrow> string list \<times> nat \<times> string list" where
  "take_fitting width cur_line cur_len [] = (cur_line, cur_len, [])"
| "take_fitting width cur_line cur_len (c # cs) =
     (if cur_len + length c \<le> width
      then take_fitting width (cur_line @ [c]) (cur_len + length c) cs
      else (cur_line, cur_len, c # cs))"

text \<open>
  One pass of the outer loop of \<open>_wrap_chunks\<close>: a leading blank chunk is dropped unless this
  is the first line (\<open>started\<close> is \<open>lines\<close> being non-empty), the line is filled, a chunk that
  fits on no line is cut, and a trailing blank chunk is dropped. The result is \<open>cur_line\<close> and
  the chunks left.
\<close>

definition next_line :: "nat \<Rightarrow> bool \<Rightarrow> string list \<Rightarrow> string list \<times> string list" where
  "next_line width started chunks =
     (let chunks1 = (case chunks of c # cs \<Rightarrow> if is_blank c \<and> started then cs else chunks | [] \<Rightarrow> chunks);
          (cur_line, cur_len, chunks2) = take_fitting width [] 0 chunks1;
          (cur_line2, chunks3) =
             (case chunks2 of
                d # ds \<Rightarrow> if length d > width then handle_long_word width d ds cur_line cur_len
                          else (cur_line, chunks2)
              | [] \<Rightarrow> (cur_line, chunks2));
          cur_line3 = (if cur_line2 \<noteq> [] \<and> is_blank (last cur_line2) then butlast cur_line2 else cur_line2)
      in (cur_line3, chunks3))"

text \<open>The loop ends because every pass removes a chunk or shortens one.\<close>

definition weight :: "string list \<Rightarrow> nat" where
  "weight chunks = sum_list (map length chunks) + length chunks"

lemma take_fitting_split:
  "take_fitting w cl n chunks = (cl', n', rest) \<Longrightarrow>
     \<exists>pre. chunks = pre @ rest \<and> cl' = cl @ pre \<and> n' = n + sum_list (map length pre) \<and>
           (n \<le> w \<longrightarrow> n' \<le> w) \<and> (case rest of d # _ \<Rightarrow> w < n' + length d | [] \<Rightarrow> True)"
proof (induction w cl n chunks rule: take_fitting.induct)
  case (1 width cur_line cur_len)
  then show ?case by simp
next
  case (2 width cur_line cur_len c cs)
  show ?case
  proof (cases "cur_len + length c \<le> width")
    case True
    with 2 obtain pre where "cs = pre @ rest" "cl' = (cur_line @ [c]) @ pre"
        "n' = (cur_len + length c) + sum_list (map length pre)"
        "cur_len + length c \<le> width \<longrightarrow> n' \<le> width"
        "(case rest of d # _ \<Rightarrow> width < n' + length d | [] \<Rightarrow> True)"
      by fastforce
    with True show ?thesis by (intro exI [of _ "c # pre"]) simp
  next
    case False
    with 2 show ?thesis by (intro exI [of _ "[]"]) auto
  qed
qed

lemma weight_append: "weight (xs @ ys) = weight xs + weight ys"
  by (simp add: weight_def)

lemma weight_Cons: "weight (x # xs) = Suc (length x + weight xs)"
  by (simp add: weight_def)

lemma handle_long_word_weight: "weight (snd (handle_long_word w d ds cl n)) \<le> weight (d # ds)"
  by (simp add: handle_long_word_def Let_def weight_Cons)

lemma rfind_hyphen_less: "rfind_hyphen s = Some i \<Longrightarrow> i < length s"
proof -
  assume a: "rfind_hyphen s = Some i"
  define l where "l = filter (\<lambda>i. s ! i = CHR ''-'') (rev [0 ..< length s])"
  from a obtain r where "l = i # r"
    unfolding rfind_hyphen_def l_def [symmetric] by (cases l) simp_all
  then have "i \<in> set l" by simp
  then show ?thesis unfolding l_def by simp
qed

lemma break_end_lower: "1 \<le> sl \<Longrightarrow> 1 \<le> break_end d sl"
  by (auto simp: break_end_def split: option.splits)

lemma break_end_upper: "0 \<le> sl \<Longrightarrow> break_end d sl \<le> sl"
  by (auto simp: break_end_def py_prefix_def split: option.splits dest!: rfind_hyphen_less)

lemma handle_long_word_progress:
  assumes "w < length d"
  shows "weight (snd (handle_long_word w d ds cl 0)) < weight (d # ds)"
proof -
  define sl where "sl = (if w < 1 then 1 else int w - int 0)"
  have "1 \<le> sl" by (simp add: sl_def)
  then have "1 \<le> break_end d sl" by (rule break_end_lower)
  then have "0 < length (py_prefix d (break_end d sl))"
    using assms by (auto simp: py_prefix_def)
  moreover have "0 < length d" using assms by linarith
  ultimately have "length d - length (py_prefix d (break_end d sl)) < length d"
    by (rule_tac diff_less)
  moreover have "snd (handle_long_word w d ds cl 0) = drop (length (py_prefix d (break_end d sl))) d # ds"
    by (simp add: handle_long_word_def Let_def sl_def)
  ultimately show ?thesis by (simp add: weight_Cons)
qed

lemma next_line_weight:
  assumes "chunks \<noteq> []"
  shows "weight (snd (next_line w b chunks)) < weight chunks"
proof -
  obtain c cs where chunks: "chunks = c # cs" using assms by (cases chunks) auto
  define chunks1 where "chunks1 = (if is_blank c \<and> b then cs else c # cs)"
  obtain cl n chunks2 where tf: "take_fitting w [] 0 chunks1 = (cl, n, chunks2)"
    by (cases "take_fitting w [] 0 chunks1") auto
  from take_fitting_split [OF tf] obtain pre where
    pre: "chunks1 = pre @ chunks2" "n = sum_list (map length pre)" "n \<le> w"
      "(case chunks2 of d # _ \<Rightarrow> w < n + length d | [] \<Rightarrow> True)" by auto
  define res where "res = (case chunks2 of
                d # ds \<Rightarrow> if length d > w then handle_long_word w d ds cl n
                          else (cl, chunks2)
              | [] \<Rightarrow> (cl, chunks2))"
  have "snd (next_line w b (c # cs)) = snd res"
    unfolding next_line_def list.case chunks1_def [symmetric] Let_def tf prod.case res_def
    by (simp split: prod.splits)
  then have snd_eq: "snd (next_line w b chunks) = snd res" by (simp add: chunks)
  have le2: "weight (snd res) \<le> weight chunks2"
    using handle_long_word_weight by (auto simp: res_def split: list.splits)
  show ?thesis
  proof (cases "is_blank c \<and> b")
    case True
    then have "weight chunks1 < weight chunks" by (simp add: chunks1_def chunks weight_Cons)
    moreover have "weight chunks2 \<le> weight chunks1" by (simp add: pre(1) weight_append)
    ultimately show ?thesis using le2 snd_eq by simp
  next
    case False
    then have c1: "chunks1 = chunks" by (simp add: chunks1_def chunks)
    show ?thesis
    proof (cases pre)
      case Nil
      then have c2: "chunks2 = c # cs" "n = 0" using pre c1 chunks by auto
      then have long: "w < length c" using pre(4) by simp
      have "res = handle_long_word w c cs cl 0" using c2 long by (simp add: res_def)
      with handle_long_word_progress [OF long] show ?thesis
        using snd_eq chunks by simp
    next
      case (Cons p ps)
      then have "weight chunks2 < weight chunks1" by (simp add: pre(1) weight_append weight_Cons)
      then show ?thesis using le2 snd_eq c1 by simp
    qed
  qed
qed

text \<open>The outer loop of \<open>_wrap_chunks\<close>: a non-empty \<open>cur_line\<close> is joined and appended.\<close>

function wrap_loop :: "nat \<Rightarrow> string list \<Rightarrow> string list \<Rightarrow> string list" where
  "wrap_loop width lines chunks =
     (if chunks = [] then lines
      else wrap_loop width
             (if fst (next_line width (lines \<noteq> []) chunks) \<noteq> []
              then lines @ [concat (fst (next_line width (lines \<noteq> []) chunks))] else lines)
             (snd (next_line width (lines \<noteq> []) chunks)))"
  by pat_completeness auto
termination
  by (relation "measure (\<lambda>(width, lines, chunks). weight chunks)") (auto simp: next_line_weight)

declare wrap_loop.simps [simp del]

text \<open>\<open>_wrap_chunks\<close>: a width that is not positive raises before the loop.\<close>

definition wrap_chunks :: "int \<Rightarrow> string list \<Rightarrow> error + string list" where
  "wrap_chunks width chunks =
     (if width \<le> 0 then Inl ValueError else Inr (wrap_loop (nat width) [] chunks))"

definition textwrap_wrap :: "string \<Rightarrow> int \<Rightarrow> error + string list" where
  "textwrap_wrap text width = wrap_chunks width (split_chunks text)"

text \<open>\<open>sep.join(xs)\<close>.\<close>

fun join :: "string \<Rightarrow> string list \<Rightarrow> string" where
  "join sep [] = []"
| "join sep [x] = x"
| "join sep (x # y # ys) = x @ sep @ join sep (y # ys)"

definition textwrap_fill :: "string \<Rightarrow> int \<Rightarrow> error + string" where
  "textwrap_fill text width =
     (case textwrap_wrap text width of Inl e \<Rightarrow> Inl e | Inr ls \<Rightarrow> Inr (join [CHR 0x0A] ls))"

section \<open>The figure and the options of add_molecules\<close>

text \<open>\<open>fig.data\<close> is the list of traces; of a trace the code reads \<open>x["name"]\<close> and
  \<open>x.marker["color"]\<close>, of the layout the two axis titles.\<close>

record trace =
  trace_name :: pyval
  marker_color :: pyval

record figure =
  fig_data :: "trace list"
  xaxis_title :: pyval
  yaxis_title :: pyval

text \<open>
  The keyword arguments of \<open>add_molecules\<close> that the code branches on. \<open>smiles_col\<close> is a
  string or a list of strings. \<open>svg_size\<close>, \<open>alpha\<close>, \<open>img_alpha\<close>, \<open>width\<close>, \<open>fontfamily\<close>,
  \<open>fontsize\<close> and \<open>port\<close> only reach the style of the output and are left out. A caption
  transform is a Python callable, which may raise.
\<close>

datatype columns_arg = Col string | Cols "string list"

datatype config = Config
  (smiles_col: columns_arg)
  (show_img: bool)
  (title_col: "string option")
  (show_coords: bool)
  (caption_cols: "string list option")
  (caption_transform: "(string \<times> (pyval \<Rightarrow> error + pyval)) list")
  (color_col: "string option")
  (wrap: bool)
  (wraplen: int)

text \<open>Lines 202-203: a single column name becomes a one-element list.\<close>

definition smiles_cols :: "config \<Rightarrow> string list" where
  "smiles_cols cfg = (case smiles_col cfg of Col s \<Rightarrow> [s] | Cols l \<Rightarrow> l)"

text \<open>Sequencing of steps that may raise.\<close>

definition bind_err :: "error + 'a \<Rightarrow> ('a \<Rightarrow> error + 'b) \<Rightarrow> error + 'b" where
  "bind_err m f = (case m of Inl e \<Rightarrow> Inl e | Inr v \<Rightarrow> f v)"

text \<open>A list comprehension whose element expression may raise.\<close>

fun collect :: "('a \<Rightarrow> error + 'b) \<Rightarrow> 'a list \<Rightarrow> error + 'b list" where
  "collect f [] = Inr []"
| "collect f (x # xs) = bind_err (f x) (\<lambda>y. bind_err (collect f xs) (\<lambda>ys. Inr (y # ys)))"

section \<open>add_molecules: the image columns\<close>

text \<open>
  Lines 232-241 draw one cell. RDKit is not part of the repository: \<open>draw\<close> stands for
  \<open>MolFromSmiles\<close> followed by the drawing and the base64 encoding, and is \<open>None\<close> where
  \<open>MolFromSmiles\<close> returns no molecule, on which \<open>DrawMolecule\<close> raises. A cell that is not a
  string is rejected by \<open>MolFromSmiles\<close> itself. There is no handler around either call.
\<close>

definition draw_cell :: "(string \<Rightarrow> string option) \<Rightarrow> pyval \<Rightarrow> error + pyval" where
  "draw_cell draw v =
     (case v of
        PStr s \<Rightarrow> (case draw s of Some img \<Rightarrow> Inr (PStr img) | None \<Rightarrow> Inl RenderError)
      | _ \<Rightarrow> Inl RenderError)"

text \<open>The inner loop, lines 228-243: \<open>df_data.loc[i, f"{col}_img"] = img_str\<close> for each column.\<close>

fun draw_row :: "(string \<Rightarrow> string option) \<Rightarrow> int \<Rightarrow> row \<Rightarrow> string list \<Rightarrow> dataframe \<Rightarrow> error + dataframe" where
  "draw_row draw i r [] df_data = Inr df_data"
| "draw_row draw i r (col # cols) df_data =
     bind_err (draw_cell draw (cell r col))
       (\<lambda>img_str. draw_row draw i r cols (set_loc df_data i (col @ ''_img'') img_str))"

text \<open>The outer loop, line 227: \<open>iterrows\<close> yields the label and the cells of each row of
  the frame as it was when the loop began.\<close>

fun draw_rows :: "(string \<Rightarrow> string option) \<Rightarrow> (int \<times> row) list \<Rightarrow> string list \<Rightarrow> dataframe \<Rightarrow> error + dataframe" where
  "draw_rows draw [] cols df_data = Inr df_data"
| "draw_rows draw (ir # rest) cols df_data =
     bind_err (draw_row draw (fst ir) (snd ir) cols df_data) (\<lambda>d. draw_rows draw rest cols d)"

text \<open>Lines 224-243.\<close>

definition build_images :: "(string \<Rightarrow> string option) \<Rightarrow> config \<Rightarrow> dataframe \<Rightarrow> error + dataframe" where
  "build_images draw cfg df =
     bind_err (select_columns df (smiles_cols cfg))
       (\<lambda>df_data. draw_rows draw (rows df_data) (smiles_cols cfg) df_data)"

section \<open>add_molecules: colours and the curve dictionary\<close>

text \<open>
  \<open>int(x["name"])\<close>. The grammar of integer literals is the interpreter's: \<open>parse\<close> stands
  for \<open>int\<close> on a string and is \<open>None\<close> where it raises \<open>ValueError\<close>.
\<close>

definition py_int :: "(string \<Rightarrow> int option) \<Rightarrow> pyval \<Rightarrow> error + int" where
  "py_int parse v =
     (case v of
        PStr s \<Rightarrow> (case parse s of Some i \<Rightarrow> Inr i | None \<Rightarrow> Inl ValueError)
      | PInt i \<Rightarrow> Inr i
      | PBool b \<Rightarrow> Inr (if b then 1 else 0)
      | PNone \<Rightarrow> Inl TypeError)"

text \<open>
  Lines 246-261. The result is \<open>colors\<close> and \<open>curve_dict\<close>, both dicts over the trace
  indices and kept as lists; with one trace \<open>colors\<close> is \<open>{0: "black"}\<close> and \<open>curve_dict\<close> is
  never bound, nor ever read.
\<close>

definition curve_setup :: "(string \<Rightarrow> int option) \<Rightarrow> config \<Rightarrow> figure \<Rightarrow> dataframe \<Rightarrow> error + (pyval list \<times> pyval list)" where
  "curve_setup parse cfg fig df =
     (if length (fig_data fig) \<noteq> 1
      then (case color_col cfg of
              Some c \<Rightarrow>
                bind_err (column_dtype df c)
                  (\<lambda>t. bind_err
                          (if t = DBool
                           then collect (\<lambda>x. bind_err (str2bool (trace_name x)) (\<lambda>b. Inr (PBool b))) (fig_data fig)
                           else if t = DInt
                           then collect (\<lambda>x. bind_err (py_int parse (trace_name x)) (\<lambda>i. Inr (PInt i))) (fig_data fig)
                           else collect (\<lambda>x. Inr (trace_name x)) (fig_data fig))
                          (\<lambda>curve_dict. Inr (map marker_color (fig_data fig), curve_dict)))
            | None \<Rightarrow> Inl ValueError)
      else Inr ([PStr ''black''], []))"

text \<open>What the closure \<open>display_hover\<close> keeps of the set-up.\<close>

record app_state =
  df_data :: dataframe
  colors :: "pyval list"
  curve_dict :: "pyval list"

text \<open>\<open>add_molecules\<close> up to the creation of the app: the images first, the traces second.\<close>

definition add_molecules :: "(string \<Rightarrow> string option) \<Rightarrow> (string \<Rightarrow> int option) \<Rightarrow> config \<Rightarrow> figure \<Rightarrow> dataframe \<Rightarrow> error + app_state" where
  "add_molecules draw parse cfg fig df =
     bind_err (build_images draw cfg df)
       (\<lambda>d. bind_err (curve_setup parse cfg fig df)
               (\<lambda>cc. Inr \<lparr>df_data = d, colors = fst cc, curve_dict = snd cc\<rparr>))"

section \<open>display_hover\<close>

text \<open>
  The first point of \<open>hoverData\<close>; \<open>hoverData\<close> itself may be \<open>None\<close>. The menu value is a
  string, a list of strings, or something that is neither (\<open>None\<close>).
\<close>

type_synonym bbox = "int \<times> int \<times> int \<times> int"

record point =
  bbox :: bbox
  pointNumber :: int
  curveNumber :: int
  pt_x :: pyval
  pt_y :: pyval

datatype selection = SelStr string | SelList "string list" | SelOther

text \<open>The three outputs of the callback; \<open>no_update\<close> leaves an output as it is. The elements
  of the hover box are \<open>html.Img(src)\<close>, \<open>html.H2(text)\<close> with its colour, and \<open>html.P(text)\<close>.\<close>

datatype 'a dash_output = no_update | Value 'a

datatype element = Img pyval | H2 string pyval | P string

text \<open>Lines 314-318: the row under the pointer.\<close>

definition resolve_row :: "config \<Rightarrow> figure \<Rightarrow> dataframe \<Rightarrow> app_state \<Rightarrow> int \<Rightarrow> int \<Rightarrow> error + (int \<times> row)" where
  "resolve_row cfg fig df st curve_num num =
     (if length (fig_data fig) \<noteq> 1
      then (case color_col cfg of
              None \<Rightarrow> Inl KeyError
            | Some c \<Rightarrow>
                bind_err (dict_get (curve_dict st) curve_num)
                  (\<lambda>g. bind_err (select_eq df c g) (\<lambda>df_curve. iloc (reset_index df_curve) num)))
      else iloc df num)"

text \<open>Line 328: \<open>df_data.query(f"{col} == @smiles")[f"{col}_img"].values[0]\<close>.\<close>

definition lookup_image :: "dataframe \<Rightarrow> string \<Rightarrow> pyval \<Rightarrow> error + pyval" where
  "lookup_image d col smiles =
     bind_err (select_eq d col smiles)
       (\<lambda>q. if has_column q (col @ ''_img'')
             then py_index (map (\<lambda>lr. cell (snd lr) (col @ ''_img'')) (rows q)) 0
             else Inl KeyError)"

text \<open>Lines 304-307 and the test \<open>col in chosen_smiles\<close>.\<close>

definition chosen :: "selection \<Rightarrow> string \<Rightarrow> error + bool" where
  "chosen val col =
     (case val of
        SelStr s \<Rightarrow> Inr (col \<in> set [s])
      | SelList l \<Rightarrow> Inr (col \<in> set l)
      | SelOther \<Rightarrow> Inl TypeError)"

text \<open>Lines 324-338.\<close>

fun image_blocks :: "dataframe \<Rightarrow> app_state \<Rightarrow> selection \<Rightarrow> row \<Rightarrow> string list \<Rightarrow> error + element list" where
  "image_blocks df st val df_row [] = Inr []"
| "image_blocks df st val df_row (col # cols) =
     bind_err (chosen val col)
       (\<lambda>b. if b
             then bind_err (row_get df df_row col)
                    (\<lambda>smiles. bind_err (lookup_image (df_data st) col smiles)
                       (\<lambda>img_str. bind_err (image_blocks df st val df_row cols)
                          (\<lambda>es. Inr (Img img_str # es))))
             else image_blocks df st val df_row cols)"

text \<open>Lines 341-346; \<open>len\<close> of an object that is not a string raises.\<close>

definition format_title :: "config \<Rightarrow> pyval \<Rightarrow> error + string" where
  "format_title cfg title =
     (case title of
        PStr s \<Rightarrow>
          if int (length s) > wraplen cfg
          then (if wrap cfg then textwrap_fill s (wraplen cfg)
                else Inr (py_prefix s (wraplen cfg) @ ''...''))
          else Inr s
      | _ \<Rightarrow> Inl TypeError)"

text \<open>Lines 340-356.\<close>

definition title_blocks :: "config \<Rightarrow> dataframe \<Rightarrow> app_state \<Rightarrow> row \<Rightarrow> int \<Rightarrow> error + element list" where
  "title_blocks cfg df st df_row curve_num =
     (case title_col cfg of
        None \<Rightarrow> Inr []
      | Some c \<Rightarrow>
          bind_err (row_get df df_row c)
            (\<lambda>title. bind_err (format_title cfg title)
               (\<lambda>t. bind_err (dict_get (colors st) curve_num) (\<lambda>color. Inr [H2 t color]))))"

text \<open>\<open>label in caption_transform\<close> and \<open>caption_transform[label]\<close>; the keys are strings.\<close>

definition transform_for :: "config \<Rightarrow> pyval \<Rightarrow> (pyval \<Rightarrow> error + pyval) option" where
  "transform_for cfg label =
     (case label of PStr s \<Rightarrow> map_of (caption_transform cfg) s | _ \<Rightarrow> None)"

text \<open>
  One caption, as in lines 360-382, 383-405 and 409-431: with a transform the text is
  \<open>f"{label} : {style_str}"\<close>, without one the label, the separator of that branch and the
  raw value.
\<close>

definition caption_block :: "config \<Rightarrow> string \<Rightarrow> pyval \<Rightarrow> pyval \<Rightarrow> error + element" where
  "caption_block cfg sep label v =
     (case transform_for cfg label of
        Some f \<Rightarrow> bind_err (f v) (\<lambda>style_str. Inr (P (py_str label @ '' : '' @ py_str style_str)))
      | None \<Rightarrow> Inr (P (py_str label @ sep @ py_str v)))"

text \<open>Lines 357-405: the x caption is written with \<open>": "\<close>, the y caption with \<open>" : "\<close>.\<close>

definition coord_blocks :: "config \<Rightarrow> figure \<Rightarrow> point \<Rightarrow> error + element list" where
  "coord_blocks cfg fig pt =
     (if show_coords cfg
      then bind_err (caption_block cfg '': '' (xaxis_title fig) (pt_x pt))
             (\<lambda>ex. bind_err (caption_block cfg '' : '' (yaxis_title fig) (pt_y pt))
                (\<lambda>ey. Inr [ex, ey]))
      else Inr [])"

text \<open>Lines 406-431.\<close>

definition extra_caption :: "config \<Rightarrow> dataframe \<Rightarrow> row \<Rightarrow> string \<Rightarrow> error + element" where
  "extra_caption cfg df df_row caption =
     bind_err (row_get df df_row caption)
       (\<lambda>caption_val. caption_block cfg '' : '' (PStr caption) caption_val)"

definition caption_blocks :: "config \<Rightarrow> dataframe \<Rightarrow> row \<Rightarrow> error + element list" where
  "caption_blocks cfg df df_row =
     (case caption_cols cfg of
        None \<Rightarrow> Inr []
      | Some cols \<Rightarrow> collect (extra_caption cfg df df_row) cols)"

text \<open>
  The callback, lines 300-442. No statement of it is inside a \<open>try\<close>: whatever a step raises
  leaves the callback.
\<close>

definition display_hover :: "config \<Rightarrow> figure \<Rightarrow> dataframe \<Rightarrow> app_state \<Rightarrow> point option \<Rightarrow> selection \<Rightarrow> error + (bool \<times> bbox dash_output \<times> element list dash_output)" where
  "display_hover cfg fig df st hoverData val =
     (case hoverData of
        None \<Rightarrow> Inr (False, no_update, no_update)
      | Some pt \<Rightarrow>
          bind_err (resolve_row cfg fig df st (curveNumber pt) (pointNumber pt))
            (\<lambda>lr. bind_err (if show_img cfg
                             then image_blocks df st val (snd lr) (smiles_cols cfg) else Inr [])
               (\<lambda>imgs. bind_err (title_blocks cfg df st (snd lr) (curveNumber pt))
                  (\<lambda>ts. bind_err (coord_blocks cfg fig pt)
                     (\<lambda>cs. bind_err (caption_blocks cfg df (snd lr))
                        (\<lambda>es. Inr (True, Value (bbox pt), Value (imgs @ ts @ cs @ es))))))))"


section \<open>Example data\<close>

text \<open>
  A small data set, a chart of it with one trace, and a chart of it split by the boolean
  column \<open>active\<close>, whose traces plotly labels \<open>True\<close> and \<open>False\<close>. The stand-in for RDKit
  draws every string but \<open>??\<close>.
\<close>

definition demo_df :: dataframe where
  "demo_df =
     \<lparr>columns = [(''smiles'', DOther), (''name'', DOther), (''active'', DBool), (''mw'', DInt)],
      rows = [(0, [(''smiles'', PStr ''CCO''), (''name'', PStr ''ethanol''), (''active'', PBool True), (''mw'', PInt 46)]),
              (1, [(''smiles'', PStr ''C''), (''name'', PStr ''methane''), (''active'', PBool False), (''mw'', PInt 16)]),
              (2, [(''smiles'', PStr ''CC(=O)O''), (''name'', PStr ''acetic acid''), (''active'', PBool True), (''mw'', PInt 60)])]\<rparr>"

definition demo_fig :: figure where
  "demo_fig = \<lparr>fig_data = [\<lparr>trace_name = PStr '''', marker_color = PStr ''blue''\<rparr>],
               xaxis_title = PStr ''mw'', yaxis_title = PStr ''name''\<rparr>"

definition demo_fig_bool :: figure where
  "demo_fig_bool = \<lparr>fig_data = [\<lparr>trace_name = PStr ''True'', marker_color = PStr ''red''\<rparr>,
                                \<lparr>trace_name = PStr ''False'', marker_color = PStr ''blue''\<rparr>],
                    xaxis_title = PStr ''mw'', yaxis_title = PStr ''name''\<rparr>"

definition demo_draw :: "string \<Rightarrow> string option" where
  "demo_draw s = (if s = ''??'' then None else Some (''svg:'' @ s))"

definition demo_parse :: "string \<Rightarrow> int option" where
  "demo_parse s = (if s = ''0'' then Some 0 else if s = ''1'' then Some 1 else None)"

definition demo_cfg :: config where
  "demo_cfg = Config (Col ''smiles'') True (Some ''name'') True (Some [''mw'']) [] None True 10"

definition demo_cfg_bool :: config where
  "demo_cfg_bool = Config (Col ''smiles'') True (Some ''name'') True (Some [''mw'']) [] (Some ''active'') True 10"

text \<open>A chart whose traces carry other labels, and the state \<open>add_molecules\<close> builds for the
  chart with one trace.\<close>

definition demo_fig_labels :: figure where
  "demo_fig_labels = \<lparr>fig_data = [\<lparr>trace_name = PStr ''TRUE'', marker_color = PStr ''red''\<rparr>,
                                  \<lparr>trace_name = PStr ''False'', marker_color = PStr ''blue''\<rparr>,
                                  \<lparr>trace_name = PStr ''Yes'', marker_color = PStr ''green''\<rparr>,
                                  \<lparr>trace_name = PStr ''ture'', marker_color = PStr ''grey''\<rparr>],
                      xaxis_title = PStr ''mw'', yaxis_title = PStr ''name''\<rparr>"

definition demo_st :: app_state where
  "demo_st =
     \<lparr>df_data =
        \<lparr>columns = [(''smiles'', DOther), (''smiles_img'', DOther)],
         rows = [(0, [(''smiles'', PStr ''CCO''), (''smiles_img'', PStr ''svg:CCO'')]),
                 (1, [(''smiles'', PStr ''C''), (''smiles_img'', PStr ''svg:C'')]),
                 (2, [(''smiles'', PStr ''CC(=O)O''), (''smiles_img'', PStr ''svg:CC(=O)O'')])]\<rparr>,
      colors = [PStr ''black''], curve_dict = []\<rparr>"

definition demo_st_bool :: app_state where
  "demo_st_bool = demo_st\<lparr>colors := [PStr ''red'', PStr ''blue''], curve_dict := [PBool True, PBool False]\<rparr>"

text \<open>A hover event on the second point, and a caption transform.\<close>

definition demo_pt :: point where
  "demo_pt = \<lparr>bbox = (10, 20, 30, 40), pointNumber = 1, curveNumber = 0,
              pt_x = PInt 16, pt_y = PStr ''methane''\<rparr>"

definition demo_units :: "pyval \<Rightarrow> error + pyval" where
  "demo_units v = Inr (PStr (py_str v @ '' g/mol''))"



text \<open>
  A data set with two structure columns, for which the menu is a dropdown whose value is a
  column name or a list of column names, and a chart of it with one trace.
\<close>

definition pair_df :: dataframe where
  "pair_df =
     \<lparr>columns = [(''smiles'', DOther), (''solvent'', DOther), (''name'', DOther), (''mw'', DInt)],
      rows = [(0, [(''smiles'', PStr ''CCO''), (''solvent'', PStr ''O''), (''name'', PStr ''ethanol''), (''mw'', PInt 46)]),
              (1, [(''smiles'', PStr ''C''), (''solvent'', PStr ''CO''), (''name'', PStr ''methane''), (''mw'', PInt 16)]),
              (2, [(''smiles'', PStr ''CC(=O)O''), (''solvent'', PStr ''O''), (''name'', PStr ''acetic acid''), (''mw'', PInt 60)])]\<rparr>"

definition pair_cfg :: config where
  "pair_cfg = Config (Cols [''smiles'', ''solvent'']) True (Some ''name'') True (Some [''mw'']) [] None True 10"

definition pair_cfg_cut :: config where
  "pair_cfg_cut = Config (Cols [''smiles'', ''solvent'']) True (Some ''name'') True (Some [''mw'']) [] None False 10"

definition pair_cfg_wide :: config where
  "pair_cfg_wide = Config (Cols [''smiles'', ''solvent'']) True (Some ''name'') True (Some [''mw'']) [] None True 11"

definition pair_cfg_units :: config where
  "pair_cfg_units =
     Config (Cols [''smiles'', ''solvent'']) True (Some ''name'') True (Some [''mw''])
       [(''mw'', demo_units)] None True 10"

text \<open>A transform that returns its argument.\<close>

definition demo_same :: "pyval \<Rightarrow> error + pyval" where
  "demo_same v = Inr v"

definition pair_cfg_same :: config where
  "pair_cfg_same =
     Config (Cols [''smiles'', ''solvent'']) True (Some ''name'') True (Some [''mw''])
       [(''mw'', demo_same)] None True 10"

text \<open>The hover event on the third point.\<close>

definition pair_pt :: point where
  "pair_pt = \<lparr>bbox = (10, 20, 30, 40), pointNumber = 2, curveNumber = 0,
              pt_x = PInt 60, pt_y = PStr ''acetic acid''\<rparr>"

text \<open>The state \<open>add_molecules\<close> builds for it.\<close>

definition pair_st :: app_state where
  "pair_st =
     \<lparr>df_data =
        \<lparr>columns = [(''smiles'', DOther), (''solvent'', DOther),
                    (''smiles_img'', DOther), (''solvent_img'', DOther)],
         rows = [(0, [(''smiles'', PStr ''CCO''), (''solvent'', PStr ''O''),
                      (''smiles_img'', PStr ''svg:CCO''), (''solvent_img'', PStr ''svg:O'')]),
                 (1, [(''smiles'', PStr ''C''), (''solvent'', PStr ''CO''),
                      (''smiles_img'', PStr ''svg:C''), (''solvent_img'', PStr ''svg:CO'')]),
                 (2, [(''smiles'', PStr ''CC(=O)O''), (''solvent'', PStr ''O''),
                      (''smiles_img'', PStr ''svg:CC(=O)O''), (''solvent_img'', PStr ''svg:O'')])]\<rparr>,
      colors = [PStr ''black''], curve_dict = []\<rparr>"

text \<open>A data set whose one title is a single word of 22 letters, the state built for it, and
  the hover event on its point.\<close>

definition long_df :: dataframe where
  "long_df =
     \<lparr>columns = [(''smiles'', DOther), (''solvent'', DOther), (''name'', DOther), (''mw'', DInt)],
      rows = [(0, [(''smiles'', PStr ''NC(=O)C1CCCCC1''), (''solvent'', PStr ''O''),
                   (''name'', PStr ''cyclohexanecarboxamide''), (''mw'', PInt 127)])]\<rparr>"

definition long_st :: app_state where
  "long_st =
     \<lparr>df_data =
        \<lparr>columns = [(''smiles'', DOther), (''solvent'', DOther),
                    (''smiles_img'', DOther), (''solvent_img'', DOther)],
         rows = [(0, [(''smiles'', PStr ''NC(=O)C1CCCCC1''), (''solvent'', PStr ''O''),
                      (''smiles_img'', PStr ''svg:NC(=O)C1CCCCC1''), (''solvent_img'', PStr ''svg:O'')])]\<rparr>,
      colors = [PStr ''black''], curve_dict = []\<rparr>"

definition long_pt :: point where
  "long_pt = \<lparr>bbox = (10, 20, 30, 40), pointNumber = 0, curveNumber = 0,
              pt_x = PInt 127, pt_y = PStr ''cyclohexanecarboxamide''\<rparr>"

text \<open>A data set in which two rows carry the index label 0 (as after \<open>pd.concat\<close>), the hover
  event on its first point, and the state built for it.\<close>

definition dup_df :: dataframe where
  "dup_df =
     \<lparr>columns = [(''smiles'', DOther), (''solvent'', DOther), (''name'', DOther), (''mw'', DInt)],
      rows = [(0, [(''smiles'', PStr ''CCO''), (''solvent'', PStr ''O''), (''name'', PStr ''ethanol''), (''mw'', PInt 46)]),
              (0, [(''smiles'', PStr ''C''), (''solvent'', PStr ''CO''), (''name'', PStr ''methane''), (''mw'', PInt 16)])]\<rparr>"


definition dup_st :: app_state where
  "dup_st =
     \<lparr>df_data =
        \<lparr>columns = [(''smiles'', DOther), (''solvent'', DOther),
                    (''smiles_img'', DOther), (''solvent_img'', DOther)],
         rows = [(0, [(''smiles'', PStr ''CCO''), (''solvent'', PStr ''O''),
                      (''smiles_img'', PStr ''svg:C''), (''solvent_img'', PStr ''svg:CO'')]),
                 (0, [(''smiles'', PStr ''C''), (''solvent'', PStr ''CO''),
                      (''smiles_img'', PStr ''svg:C''), (''solvent_img'', PStr ''svg:CO'')])]\<rparr>,
      colors = [PStr ''black''], curve_dict = []\<rparr>"


section \<open>Basic facts\<close>

lemma bind_err_Inl [simp]: "bind_err (Inl e) f = Inl e"
  by (simp add: bind_err_def)

lemma bind_err_Inr [simp]: "bind_err (Inr v) f = f v"
  by (simp add: bind_err_def)

lemma collect_str2bool:
  "\<forall>t \<in> set ts. \<exists>s. trace_name t = PStr s \<Longrightarrow>
     collect (\<lambda>x. bind_err (str2bool (trace_name x)) (\<lambda>b. Inr (PBool b))) ts =
       Inr (map (\<lambda>t. PBool (lower (py_str (trace_name t)) \<in> set [''yes'', ''true'', ''t'', ''1''])) ts)"
proof (induction ts)
  case Nil
  show ?case by simp
next
  case (Cons t ts)
  from Cons.prems obtain s where s: "trace_name t = PStr s" by auto
  from Cons have "collect (\<lambda>x. bind_err (str2bool (trace_name x)) (\<lambda>b. Inr (PBool b))) ts =
       Inr (map (\<lambda>t. PBool (lower (py_str (trace_name t)) \<in> set [''yes'', ''true'', ''t'', ''1''])) ts)"
    by simp
  then show ?case by (simp add: s del: set_simps)
qed

lemma reset_index_nth:
  "i < length (rows d) \<Longrightarrow> rows (reset_index d) ! i = (int i, snd (rows d ! i))"
  by (simp add: reset_index_def)

lemma length_reset_index [simp]: "length (rows (reset_index d)) = length (rows d)"
  by (simp add: reset_index_def)

lemma py_index_nat: "i < length xs \<Longrightarrow> py_index xs (int i) = Inr (xs ! i)"
  by (simp add: py_index_def)

lemma py_index_out:
  "i < - int (length xs) \<or> int (length xs) \<le> i \<Longrightarrow> py_index xs i = Inl IndexError"
  by (auto simp: py_index_def)

text \<open>The example states are the ones the set-up builds.\<close>

lemma demo_setup: "add_molecules demo_draw demo_parse demo_cfg demo_fig demo_df = Inr demo_st"
  by code_simp

lemma demo_setup_bool:
  "add_molecules demo_draw demo_parse demo_cfg_bool demo_fig_bool demo_df = Inr demo_st_bool"
  by code_simp



lemma draw_cell_fail:
  "\<forall>s. v = PStr s \<longrightarrow> draw s = None \<Longrightarrow> draw_cell draw v = Inl RenderError"
  by (cases v) (auto simp: draw_cell_def split: option.splits)








text \<open>The callback when each of its steps returns.\<close>

lemma display_hover_steps:
  "resolve_row cfg fig df st (curveNumber pt) (pointNumber pt) = Inr lr \<Longrightarrow>
   (if show_img cfg then image_blocks df st val (snd lr) (smiles_cols cfg) else Inr []) = Inr imgs \<Longrightarrow>
   title_blocks cfg df st (snd lr) (curveNumber pt) = Inr ts \<Longrightarrow>
   coord_blocks cfg fig pt = Inr cs \<Longrightarrow>
   caption_blocks cfg df (snd lr) = Inr es \<Longrightarrow>
   display_hover cfg fig df st (Some pt) val = Inr (True, Value (bbox pt), Value (imgs @ ts @ cs @ es))"
  by (simp add: display_hover_def)

lemma textwrap_fill_defined:
  "0 < width \<Longrightarrow>
     textwrap_fill s width = Inr (join [CHR 0x0A] (wrap_loop (nat width) [] (split_chunks s)))"
  by (simp add: textwrap_fill_def textwrap_wrap_def wrap_chunks_def)

lemma title_blocks_cases:
  assumes "title_col cfg = Some c" and "has_column df c" and "cell r c = PStr s"
    and "dict_get (colors st) k = Inr color"
  shows "int (length s) \<le> wraplen cfg \<Longrightarrow> title_blocks cfg df st r k = Inr [H2 s color]"
    and "wraplen cfg < int (length s) \<Longrightarrow> wrap cfg \<Longrightarrow> textwrap_fill s (wraplen cfg) = Inr t \<Longrightarrow>
           title_blocks cfg df st r k = Inr [H2 t color]"
    and "wraplen cfg < int (length s) \<Longrightarrow> \<not> wrap cfg \<Longrightarrow> 0 \<le> wraplen cfg \<Longrightarrow>
           title_blocks cfg df st r k = Inr [H2 (take (nat (wraplen cfg)) s @ ''...'') color]"
  using assms by (simp_all add: title_blocks_def row_get_def format_title_def py_prefix_def)

text \<open>A caption is emitted when the transform registered for it, if any, returns.\<close>

lemma caption_block_returns:
  assumes "\<forall>f. transform_for cfg label = Some f \<longrightarrow> (\<exists>out. f v = Inr out)"
  shows "\<exists>b. caption_block cfg sep label v = Inr b \<and>
             (\<forall>f out. transform_for cfg label = Some f \<and> f v = Inr out \<longrightarrow>
                b = P (py_str label @ '' : '' @ py_str out))"
proof (cases "transform_for cfg label")
  case None
  then show ?thesis by (simp add: caption_block_def)
next
  case (Some f)
  with assms obtain out where "f v = Inr out" by blast
  with Some show ?thesis by (simp add: caption_block_def)
qed

lemma collect_returns:
  "\<forall>x \<in> set xs. \<exists>y. g x = Inr y \<Longrightarrow>
     \<exists>ys. collect g xs = Inr ys \<and> length ys = length xs \<and> (\<forall>i < length xs. g (xs ! i) = Inr (ys ! i))"
proof (induction xs)
  case Nil
  show ?case by simp
next
  case (Cons x xs)
  then obtain y where y: "g x = Inr y" by auto
  from Cons obtain ys where ys: "collect g xs = Inr ys" "length ys = length xs"
      "\<forall>i < length xs. g (xs ! i) = Inr (ys ! i)" by auto
  have "\<forall>i < length (x # xs). g ((x # xs) ! i) = Inr ((y # ys) ! i)"
    using y ys(3) by (auto simp: nth_Cons split: nat.splits)
  then show ?case using y ys by simp
qed

lemma extra_caption_block:
  "has_column df c \<Longrightarrow> extra_caption cfg df r c = caption_block cfg '' : '' (PStr c) (cell r c)"
  by (simp add: extra_caption_def row_get_def)

lemma long_setup: "add_molecules demo_draw demo_parse pair_cfg demo_fig long_df = Inr long_st"
  by code_simp

text \<open>
  The lines of \<open>_wrap_chunks\<close>: none is longer than the width; when every chunk fits the
  width they are made of whole chunks, in order, and only blank chunks are left out; and
  they hold no character the chunks do not hold.
\<close>

lemma break_end_nonneg: "0 \<le> sl \<Longrightarrow> 0 \<le> break_end d sl"
  by (auto simp: break_end_def split: option.splits)

lemma length_py_prefix: "0 \<le> k \<Longrightarrow> length (py_prefix xs k) \<le> nat k"
  by (simp add: py_prefix_def)

lemma handle_long_word_width:
  assumes "n \<le> w" and "0 < w" and "length (concat cl) = n"
  shows "length (concat (fst (handle_long_word w d ds cl n))) \<le> w"
proof -
  define sl where "sl = int w - int n"
  have sl: "0 \<le> sl" using assms(1) by (simp add: sl_def)
  have "0 \<le> break_end d sl" using sl by (rule break_end_nonneg)
  then have "length (py_prefix d (break_end d sl)) \<le> nat (break_end d sl)"
    by (rule length_py_prefix)
  also have "\<dots> \<le> nat sl" using break_end_upper [OF sl, of d] by simp
  also have "\<dots> = w - n" by (simp add: sl_def)
  finally have "length (py_prefix d (break_end d sl)) \<le> w - n" .
  moreover have "fst (handle_long_word w d ds cl n) = cl @ [py_prefix d (break_end d sl)]"
    using assms(2) by (simp add: handle_long_word_def Let_def sl_def)
  ultimately show ?thesis using assms(1,3) by simp
qed

lemma length_concat_butlast: "length (concat (butlast xs)) \<le> length (concat xs)"
  by (induction xs) simp_all

lemma next_line_width:
  assumes "0 < w"
  shows "length (concat (fst (next_line w b chunks))) \<le> w"
proof -
  define chunks1 where "chunks1 = (case chunks of c # cs \<Rightarrow> if is_blank c \<and> b then cs else chunks | [] \<Rightarrow> chunks)"
  obtain cl n chunks2 where tf: "take_fitting w [] 0 chunks1 = (cl, n, chunks2)"
    by (cases "take_fitting w [] 0 chunks1") auto
  from take_fitting_split [OF tf] obtain pre where
    pre: "cl = pre" "n = sum_list (map length pre)" "n \<le> w" by auto
  then have len: "length (concat cl) = n" by (simp add: length_concat)
  define res where "res = (case chunks2 of
                d # ds \<Rightarrow> if length d > w then handle_long_word w d ds cl n
                          else (cl, chunks2)
              | [] \<Rightarrow> (cl, chunks2))"
  have r: "length (concat (fst res)) \<le> w"
    using handle_long_word_width [OF pre(3) assms len] len pre(3)
    by (auto simp: res_def split: list.splits)
  have "fst (next_line w b chunks) =
          (if fst res \<noteq> [] \<and> is_blank (last (fst res)) then butlast (fst res) else fst res)"
    unfolding next_line_def chunks1_def [symmetric] Let_def tf prod.case res_def [symmetric]
    by (simp split: prod.splits)
  then show ?thesis
    using r length_concat_butlast [of "fst res"] by (auto intro: order_trans)
qed

lemma wrap_loop_width:
  "0 < w \<Longrightarrow> \<forall>l \<in> set lines. length l \<le> w \<Longrightarrow> \<forall>l \<in> set (wrap_loop w lines chunks). length l \<le> w"
proof (induction w lines chunks rule: wrap_loop.induct)
  case (1 width lines chunks)
  show ?case
  proof (cases "chunks = []")
    case True
    then show ?thesis using 1(3) by (subst wrap_loop.simps) simp
  next
    case False
    define lines' where "lines' = (if fst (next_line width (lines \<noteq> []) chunks) \<noteq> []
                   then lines @ [concat (fst (next_line width (lines \<noteq> []) chunks))] else lines)"
    have "\<forall>l \<in> set lines'. length l \<le> width"
      using 1(3) next_line_width [OF 1(2), of "lines \<noteq> []" chunks] by (auto simp: lines'_def)
    then have "\<forall>l \<in> set (wrap_loop width lines' (snd (next_line width (lines \<noteq> []) chunks))). length l \<le> width"
      using 1(1) [OF False 1(2)] unfolding lines'_def by blast
    then show ?thesis using False by (subst wrap_loop.simps) (simp add: lines'_def)
  qed
qed

lemma split_from_concat: "concat (split_from bef s) = s"
  by (induction bef s rule: split_from.induct) simp_all

lemma split_chunks_concat: "concat (split_chunks s) = munge_whitespace s"
  by (simp add: split_chunks_def split_from_concat)

lemma next_line_fitting:
  assumes fit: "\<forall>c \<in> set chunks. length c \<le> w" and ne: "chunks \<noteq> []"
  shows "\<exists>z pre. chunks = z @ pre @ snd (next_line w b chunks) \<and> list_all is_blank z \<and>
           (fst (next_line w b chunks) = pre \<or>
            (pre \<noteq> [] \<and> is_blank (last pre) \<and> fst (next_line w b chunks) = butlast pre))"
proof -
  obtain c cs where chunks: "chunks = c # cs" using ne by (cases chunks) auto
  define z where "z = (if is_blank c \<and> b then [c] else [])"
  define chunks1 where "chunks1 = (if is_blank c \<and> b then cs else c # cs)"
  have zc: "chunks = z @ chunks1" "list_all is_blank z"
    by (simp_all add: z_def chunks1_def chunks)
  obtain cl n chunks2 where tf: "take_fitting w [] 0 chunks1 = (cl, n, chunks2)"
    by (cases "take_fitting w [] 0 chunks1") auto
  from take_fitting_split [OF tf] have pre: "chunks1 = cl @ chunks2" by auto
  have fit2: "\<forall>d \<in> set chunks2. length d \<le> w" using fit zc(1) pre by auto
  define res where "res = (case chunks2 of
                d # ds \<Rightarrow> if length d > w then handle_long_word w d ds cl n
                          else (cl, chunks2)
              | [] \<Rightarrow> (cl, chunks2))"
  have res: "res = (cl, chunks2)"
    using fit2 by (auto simp: res_def split: list.splits)
  have nl: "next_line w b (c # cs) =
          (if fst res \<noteq> [] \<and> is_blank (last (fst res)) then butlast (fst res) else fst res, snd res)"
    unfolding next_line_def list.case chunks1_def [symmetric] Let_def tf prod.case res_def [symmetric]
    by (simp split: prod.splits)
  have sn: "snd (next_line w b chunks) = chunks2" by (simp add: chunks nl res)
  show ?thesis
  proof (rule exI [of _ z], rule exI [of _ cl], intro conjI)
    show "chunks = z @ cl @ snd (next_line w b chunks)"
      unfolding sn using zc(1) pre by simp
    show "list_all is_blank z" by (rule zc(2))
    show "fst (next_line w b chunks) = cl \<or>
            (cl \<noteq> [] \<and> is_blank (last cl) \<and> fst (next_line w b chunks) = butlast cl)"
      by (simp add: chunks nl res)
  qed
qed

lemma filter_blank_butlast:
  "pre \<noteq> [] \<Longrightarrow> is_blank (last pre) \<Longrightarrow>
     filter (\<lambda>c. \<not> is_blank c) (butlast pre) = filter (\<lambda>c. \<not> is_blank c) pre"
  by (induction pre) auto

lemma filter_all_blank: "list_all is_blank z \<Longrightarrow> filter (\<lambda>c. \<not> is_blank c) z = []"
  by (induction z) auto

lemma subseq_butlast: "subseq (butlast xs) xs"
  by (induction xs) auto

lemma wrap_loop_fitting:
  "\<forall>c \<in> set chunks. length c \<le> w \<Longrightarrow>
     \<exists>groups. wrap_loop w lines chunks = lines @ map concat groups \<and>
        subseq (concat groups) chunks \<and>
        filter (\<lambda>c. \<not> is_blank c) (concat groups) = filter (\<lambda>c. \<not> is_blank c) chunks"
proof (induction w lines chunks rule: wrap_loop.induct)
  case (1 width lines chunks)
  show ?case
  proof (cases "chunks = []")
    case True
    have "wrap_loop width lines chunks = lines @ map concat []"
      using True by (subst wrap_loop.simps) simp
    then show ?thesis using True by (intro exI [of _ "[]"]) simp
  next
    case False
    define g where "g = fst (next_line width (lines \<noteq> []) chunks)"
    define rest where "rest = snd (next_line width (lines \<noteq> []) chunks)"
    define lines' where "lines' = (if g \<noteq> [] then lines @ [concat g] else lines)"
    from next_line_fitting [OF 1(2) False, of "lines \<noteq> []"] obtain z pre where
      zp: "chunks = z @ pre @ rest" "list_all is_blank z"
        "g = pre \<or> (pre \<noteq> [] \<and> is_blank (last pre) \<and> g = butlast pre)"
      unfolding g_def rest_def by blast
    have fit: "\<forall>c \<in> set rest. length c \<le> width" using 1(2) zp(1) by auto
    from 1(1) [OF False, folded g_def rest_def lines'_def, OF fit] obtain groups where
      gr: "wrap_loop width lines' rest = lines' @ map concat groups"
        "subseq (concat groups) rest"
        "filter (\<lambda>c. \<not> is_blank c) (concat groups) = filter (\<lambda>c. \<not> is_blank c) rest"
      by blast
    have w: "wrap_loop width lines chunks = wrap_loop width lines' rest"
      using False by (subst wrap_loop.simps) (simp add: lines'_def g_def rest_def)
    have sg: "subseq g pre" using zp(3) subseq_butlast by auto
    have fg: "filter (\<lambda>c. \<not> is_blank c) g = filter (\<lambda>c. \<not> is_blank c) pre"
      using zp(3) filter_blank_butlast by auto
    define groups' where "groups' = (if g \<noteq> [] then g # groups else groups)"
    have c: "concat groups' = g @ concat groups" by (simp add: groups'_def)
    have "lines' @ map concat groups = lines @ map concat groups'"
      by (simp add: lines'_def groups'_def)
    moreover have "subseq (concat groups') chunks"
    proof -
      have "subseq (g @ concat groups) (pre @ rest)"
        using sg gr(2) by (rule list_emb_append_mono)
      then have "subseq (g @ concat groups) (z @ pre @ rest)"
        by (rule list_emb_append2)
      then show ?thesis by (simp add: c zp(1))
    qed
    moreover have "filter (\<lambda>c. \<not> is_blank c) (concat groups') = filter (\<lambda>c. \<not> is_blank c) chunks"
      by (simp add: c zp(1) fg gr(3) filter_all_blank [OF zp(2)])
    ultimately show ?thesis using w gr(1) by (intro exI [of _ groups']) simp
  qed
qed

lemma line_feed_is_ws: "is_ws (CHR 0x0A)"
  by code_simp

lemma munge_no_line_feed: "CHR 0x0A \<notin> set (munge_whitespace text)"
  using line_feed_is_ws by (auto simp: munge_whitespace_def)

lemma split_chunks_no_line_feed: "c \<in> set (split_chunks s) \<Longrightarrow> CHR 0x0A \<notin> set c"
proof
  assume "c \<in> set (split_chunks s)" and "CHR 0x0A \<in> set c"
  then have "CHR 0x0A \<in> set (concat (split_chunks s))" by auto
  then show False using munge_no_line_feed by (simp add: split_chunks_concat)
qed

lemma py_prefix_subset: "set (py_prefix xs k) \<subseteq> set xs"
  by (auto simp: py_prefix_def dest: in_set_takeD)

lemma handle_long_word_chars:
  assumes "\<forall>c \<in> set (d # ds). x \<notin> set c" and "\<forall>c \<in> set cl. x \<notin> set c"
  shows "(\<forall>c \<in> set (fst (handle_long_word w d ds cl n)). x \<notin> set c) \<and>
         (\<forall>c \<in> set (snd (handle_long_word w d ds cl n)). x \<notin> set c)"
  using assms py_prefix_subset [of d]
  by (auto simp: handle_long_word_def Let_def dest: in_set_dropD)

lemma next_line_chars:
  assumes "\<forall>c \<in> set chunks. x \<notin> set c"
  shows "(\<forall>c \<in> set (fst (next_line w b chunks)). x \<notin> set c) \<and>
         (\<forall>c \<in> set (snd (next_line w b chunks)). x \<notin> set c)"
proof -
  define chunks1 where "chunks1 = (case chunks of c # cs \<Rightarrow> if is_blank c \<and> b then cs else chunks | [] \<Rightarrow> chunks)"
  have c1: "\<forall>c \<in> set chunks1. x \<notin> set c"
    using assms by (auto simp: chunks1_def split: list.splits if_splits)
  obtain cl n chunks2 where tf: "take_fitting w [] 0 chunks1 = (cl, n, chunks2)"
    by (cases "take_fitting w [] 0 chunks1") auto
  from take_fitting_split [OF tf] have pre: "chunks1 = cl @ chunks2" by auto
  have cl: "\<forall>c \<in> set cl. x \<notin> set c" and c2: "\<forall>c \<in> set chunks2. x \<notin> set c"
    using c1 pre by auto
  define res where "res = (case chunks2 of
                d # ds \<Rightarrow> if length d > w then handle_long_word w d ds cl n
                          else (cl, chunks2)
              | [] \<Rightarrow> (cl, chunks2))"
  have r: "(\<forall>c \<in> set (fst res). x \<notin> set c) \<and> (\<forall>c \<in> set (snd res). x \<notin> set c)"
  proof (cases chunks2)
    case Nil
    then show ?thesis using cl by (simp add: res_def)
  next
    case (Cons d ds)
    show ?thesis
    proof (cases "length d > w")
      case True
      then have "res = handle_long_word w d ds cl n" by (simp add: res_def Cons)
      then show ?thesis using handle_long_word_chars [of d ds x cl w n] c2 cl Cons by simp
    next
      case False
      then have "res = (cl, chunks2)" by (simp add: res_def Cons)
      then show ?thesis using cl c2 by simp
    qed
  qed
  have nl: "next_line w b chunks =
          (if fst res \<noteq> [] \<and> is_blank (last (fst res)) then butlast (fst res) else fst res, snd res)"
    unfolding next_line_def chunks1_def [symmetric] Let_def tf prod.case res_def [symmetric]
    by (simp split: prod.splits)
  show ?thesis using r by (auto simp: nl dest: in_set_butlastD)
qed

lemma wrap_loop_chars:
  "\<forall>l \<in> set lines. x \<notin> set l \<Longrightarrow> \<forall>c \<in> set chunks. x \<notin> set c \<Longrightarrow>
     \<forall>l \<in> set (wrap_loop w lines chunks). x \<notin> set l"
proof (induction w lines chunks rule: wrap_loop.induct)
  case (1 width lines chunks)
  show ?case
  proof (cases "chunks = []")
    case True
    then show ?thesis using 1(2) by (subst wrap_loop.simps) simp
  next
    case False
    define g where "g = fst (next_line width (lines \<noteq> []) chunks)"
    define rest where "rest = snd (next_line width (lines \<noteq> []) chunks)"
    define lines' where "lines' = (if g \<noteq> [] then lines @ [concat g] else lines)"
    from next_line_chars [OF 1(3), of width "lines \<noteq> []"]
    have g: "\<forall>c \<in> set g. x \<notin> set c" and rest: "\<forall>c \<in> set rest. x \<notin> set c"
      by (simp_all add: g_def rest_def)
    have "\<forall>l \<in> set lines'. x \<notin> set l" using 1(2) g by (auto simp: lines'_def)
    from 1(1) [OF False, folded g_def rest_def lines'_def, OF this rest]
    have "\<forall>l \<in> set (wrap_loop width lines' rest). x \<notin> set l" .
    moreover have "wrap_loop width lines chunks = wrap_loop width lines' rest"
      using False by (subst wrap_loop.simps) (simp add: lines'_def g_def rest_def)
    ultimately show ?thesis by simp
  qed
qed

lemma dup_setup: "add_molecules demo_draw demo_parse pair_cfg demo_fig dup_df = Inr dup_st"
  by code_simp


lemma set_loc_labels [simp]: "map fst (rows (set_loc d i c v)) = map fst (rows d)"
  by (simp add: set_loc_def comp_def if_distrib cong: if_cong)

lemma set_loc_length [simp]: "length (rows (set_loc d i c v)) = length (rows d)"
  by (simp add: set_loc_def)
























section \<open>The claims\<close>

subsection \<open>C1: the row of a grouped chart\<close>

text \<open>
  C1. In a chart with several traces and the grouping column \<open>c\<close>, for every series index
  \<open>s\<close> of the curve dictionary and every point index \<open>i\<close> in range for that series, the
  hover event resolves to the row at position \<open>i\<close> of the rows of the data set whose cell in
  \<open>c\<close> equals the dictionary's value for \<open>s\<close>, kept in their order and labelled anew from 0;
  the grouping cell of the row returned equals (in the sense of the \<open>==\<close> of pandas) the
  dictionary's value for \<open>s\<close>.
\<close>

theorem grouped_series_row:
  assumes "length (fig_data fig) \<noteq> 1"
    and "color_col cfg = Some c"
    and "has_column df c"
    and "0 \<le> s" and "s < int (length (curve_dict st))"
    and "i < length (filter (\<lambda>lr. pd_eq (cell (snd lr) c) (curve_dict st ! nat s)) (rows df))"
  shows "resolve_row cfg fig df st s (int i) =
           Inr (int i, snd (filter (\<lambda>lr. pd_eq (cell (snd lr) c) (curve_dict st ! nat s)) (rows df) ! i))
         \<and> pd_eq (cell (snd (filter (\<lambda>lr. pd_eq (cell (snd lr) c) (curve_dict st ! nat s)) (rows df) ! i)) c)
                  (curve_dict st ! nat s)"
proof -
  define g where "g = curve_dict st ! nat s"
  define sub where "sub = filter (\<lambda>lr. pd_eq (cell (snd lr) c) g) (rows df)"
  have i: "i < length sub" using assms(6) by (simp add: sub_def g_def)
  have get: "dict_get (curve_dict st) s = Inr g"
    using assms(4,5) by (simp add: dict_get_def g_def)
  have sel: "select_eq df c g = Inr (df\<lparr>rows := sub\<rparr>)"
    using assms(3) by (simp add: select_eq_def sub_def)
  have "iloc (reset_index (df\<lparr>rows := sub\<rparr>)) (int i) = Inr (int i, snd (sub ! i))"
    using i by (simp add: iloc_def py_index_nat reset_index_nth)
  then have res: "resolve_row cfg fig df st s (int i) = Inr (int i, snd (sub ! i))"
    using assms(1,2) get sel by (simp add: resolve_row_def)
  have "sub ! i \<in> set sub" using i by simp
  then have "pd_eq (cell (snd (sub ! i)) c) g" by (simp add: sub_def)
  with res show ?thesis by (simp add: sub_def g_def)
qed

theorem grouped_series_row_witness:
  "resolve_row demo_cfg_bool demo_fig_bool demo_df demo_st_bool 0 1 =
     Inr (1, [(''smiles'', PStr ''CC(=O)O''), (''name'', PStr ''acetic acid''), (''active'', PBool True), (''mw'', PInt 60)])
   \<and> pd_eq (cell [(''smiles'', PStr ''CC(=O)O''), (''name'', PStr ''acetic acid''), (''active'', PBool True), (''mw'', PInt 60)] ''active'')
           (PBool True)"
proof -
  have 1: "length (fig_data demo_fig_bool) \<noteq> 1" by code_simp
  have 2: "color_col demo_cfg_bool = Some ''active''" by code_simp
  have 3: "has_column demo_df ''active''" by code_simp
  have 4: "(0::int) \<le> 0" by simp
  have 5: "0 < int (length (curve_dict demo_st_bool))" by code_simp
  have 6: "1 < length (filter (\<lambda>lr. pd_eq (cell (snd lr) ''active'') (curve_dict demo_st_bool ! nat 0)) (rows demo_df))"
    by code_simp
  have 7: "snd (filter (\<lambda>lr. pd_eq (cell (snd lr) ''active'') (PBool True)) (rows demo_df) ! 1) =
       [(''smiles'', PStr ''CC(=O)O''), (''name'', PStr ''acetic acid''), (''active'', PBool True), (''mw'', PInt 60)]"
    by code_simp
  have 8: "curve_dict demo_st_bool ! nat 0 = PBool True" by code_simp
  show ?thesis using grouped_series_row [OF 1 2 3 4 5 6] by (simp only: 7 8 int_ops)
qed

subsection \<open>C2: the row of an ungrouped chart\<close>

text \<open>
  C2. In a chart with exactly one trace, a hover event with series index 0 and the point
  index \<open>p\<close> of a row resolves to that row of the data set as it was given: the point index
  is the position in the whole data set, and nothing is filtered.
\<close>

theorem single_series_row:
  assumes "length (fig_data fig) = 1" and "p < length (rows df)"
  shows "resolve_row cfg fig df st 0 (int p) = Inr (rows df ! p)"
  using assms by (simp add: resolve_row_def iloc_def py_index_def)

theorem single_series_row_witness:
  "resolve_row demo_cfg demo_fig demo_df demo_st 0 1 =
     Inr (1, [(''smiles'', PStr ''C''), (''name'', PStr ''methane''), (''active'', PBool False), (''mw'', PInt 16)])"
proof -
  have 1: "length (fig_data demo_fig) = 1" by code_simp
  have 2: "1 < length (rows demo_df)" by code_simp
  have 3: "rows demo_df ! 1 = (1, [(''smiles'', PStr ''C''), (''name'', PStr ''methane''), (''active'', PBool False), (''mw'', PInt 16)])"
    by code_simp
  show ?thesis using single_series_row [OF 1 2, of demo_cfg demo_st] by (simp only: 3 int_ops)
qed

subsection \<open>C3: several traces and no grouping column\<close>

text \<open>
  C3. With more than one trace and no grouping column, the step that builds the colours and
  the curve dictionary raises \<open>ValueError\<close>, so \<open>add_molecules\<close> never returns an app and no hover
  event is ever handled; nothing is defaulted. The images are drawn before that step: when
  they are all drawn, the error \<open>add_molecules\<close> raises is this \<open>ValueError\<close>.
\<close>

theorem ambiguous_series_rejected:
  assumes "1 < length (fig_data fig)" and "color_col cfg = None"
  shows "curve_setup parse cfg fig df = Inl ValueError
         \<and> (\<forall>st. add_molecules draw parse cfg fig df \<noteq> Inr st)
         \<and> (\<forall>d. build_images draw cfg df = Inr d \<longrightarrow> add_molecules draw parse cfg fig df = Inl ValueError)"
proof -
  have c: "curve_setup parse cfg fig df = Inl ValueError"
    using assms by (simp add: curve_setup_def)
  have "add_molecules draw parse cfg fig df \<noteq> Inr st" for st
    by (cases "build_images draw cfg df") (simp_all add: add_molecules_def c)
  moreover have "add_molecules draw parse cfg fig df = Inl ValueError" if "build_images draw cfg df = Inr d" for d
    using that by (simp add: add_molecules_def c)
  ultimately show ?thesis using c by blast
qed

theorem ambiguous_series_rejected_witness:
  "curve_setup demo_parse demo_cfg demo_fig_bool demo_df = Inl ValueError
   \<and> add_molecules demo_draw demo_parse demo_cfg demo_fig_bool demo_df = Inl ValueError"
proof -
  have 1: "1 < length (fig_data demo_fig_bool)" by code_simp
  have 2: "color_col demo_cfg = None" by code_simp
  have 3: "build_images demo_draw demo_cfg demo_df = Inr (df_data demo_st)" by code_simp
  show ?thesis using ambiguous_series_rejected [OF 1 2, of demo_parse demo_df demo_draw] 3 by blast
qed

subsection \<open>C4: a point index out of range\<close>

text \<open>
  C4, as amended. The callback has no handler around the row look-up. When the point index is
  out of range for the rows it addresses (the whole data set with one trace, the rows of the
  series otherwise), that is at least their number or below minus their number, \<open>iloc\<close> raises
  \<open>IndexError\<close> and the callback raises it too. The result \<open>(False, no_update, no_update)\<close> is
  what an empty hover event gives. As the claim is written, an event out of range would give
  that result: it does not, for the second point of a series of one row.
\<close>

theorem out_of_range_hover_raises:
  assumes "pointNumber pt < - int (length sub) \<or> int (length sub) \<le> pointNumber pt"
    and "(length (fig_data fig) = 1 \<and> sub = rows df) \<or>
         (length (fig_data fig) \<noteq> 1 \<and> color_col cfg = Some c \<and> has_column df c \<and>
          dict_get (curve_dict st) (curveNumber pt) = Inr g \<and>
          sub = filter (\<lambda>lr. pd_eq (cell (snd lr) c) g) (rows df))"
  shows "display_hover cfg fig df st (Some pt) val = Inl IndexError
         \<and> display_hover cfg fig df st None val = Inr (False, no_update, no_update)"
proof -
  have "resolve_row cfg fig df st (curveNumber pt) (pointNumber pt) = Inl IndexError"
    using assms(2)
  proof
    assume "length (fig_data fig) = 1 \<and> sub = rows df"
    then show ?thesis using assms(1) by (simp add: resolve_row_def iloc_def py_index_out)
  next
    assume a: "length (fig_data fig) \<noteq> 1 \<and> color_col cfg = Some c \<and> has_column df c \<and>
          dict_get (curve_dict st) (curveNumber pt) = Inr g \<and>
          sub = filter (\<lambda>lr. pd_eq (cell (snd lr) c) g) (rows df)"
    then have "length (rows (reset_index (df\<lparr>rows := sub\<rparr>))) = length sub" by simp
    then have "iloc (reset_index (df\<lparr>rows := sub\<rparr>)) (pointNumber pt) = Inl IndexError"
      using assms(1) by (simp add: iloc_def py_index_out)
    then show ?thesis using a by (simp add: resolve_row_def select_eq_def)
  qed
  then show ?thesis by (simp add: display_hover_def)
qed

theorem out_of_range_hover_raises_witness:
  "display_hover demo_cfg demo_fig demo_df demo_st (Some (demo_pt\<lparr>pointNumber := 3\<rparr>)) (SelStr ''smiles'') =
     Inl IndexError"
proof -
  have 1: "pointNumber (demo_pt\<lparr>pointNumber := 3\<rparr>) < - int (length (rows demo_df)) \<or>
           int (length (rows demo_df)) \<le> pointNumber (demo_pt\<lparr>pointNumber := 3\<rparr>)"
    by code_simp
  have 2: "length (fig_data demo_fig) = 1 \<and> rows demo_df = rows demo_df" by code_simp
  show ?thesis
    using out_of_range_hover_raises [OF 1, of demo_fig demo_df demo_cfg "''active''" demo_st PNone "SelStr ''smiles''"] 2
    by blast
qed

theorem stale_hover_counterexample:
  "display_hover demo_cfg_bool demo_fig_bool demo_df demo_st_bool
     (Some (demo_pt\<lparr>curveNumber := 1, pointNumber := 1\<rparr>)) (SelStr ''smiles'') = Inl IndexError"
  by code_simp

subsection \<open>C5: a cell that does not decode\<close>




subsection \<open>C6: the image shown for a row\<close>




subsection \<open>C7: the title\<close>

text \<open>
  C7. When a title column is configured and the row's title is a string, the callback emits,
  after the images and before the captions, one title block, whose text is: the title as it
  is when it has at most \<open>wraplen\<close> characters (exactly \<open>wraplen\<close> included); what
  \<open>textwrap.fill\<close> returns for it at the width \<open>wraplen\<close>, which is defined for a positive
  \<open>wraplen\<close>, when it is longer and \<open>wrap\<close> is on; its first \<open>wraplen\<close> characters followed
  by three dots when it is longer and \<open>wrap\<close> is off. The other steps of the callback are taken
  to return: an exception in any of them leaves the callback with nothing emitted.
\<close>

theorem title_threshold:
  assumes row: "resolve_row cfg fig df st (curveNumber pt) (pointNumber pt) = Inr lr"
    and imgs: "(if show_img cfg then image_blocks df st val (snd lr) (smiles_cols cfg) else Inr []) = Inr imgs"
    and coords: "coord_blocks cfg fig pt = Inr cs"
    and caps: "caption_blocks cfg df (snd lr) = Inr es"
    and col: "title_col cfg = Some c" "has_column df c"
    and title: "cell (snd lr) c = PStr s"
    and color: "dict_get (colors st) (curveNumber pt) = Inr color"
  shows "(int (length s) \<le> wraplen cfg \<longrightarrow>
            display_hover cfg fig df st (Some pt) val =
              Inr (True, Value (bbox pt), Value (imgs @ [H2 s color] @ cs @ es)))
       \<and> (wraplen cfg < int (length s) \<and> wrap cfg \<and> 0 < wraplen cfg \<longrightarrow>
            (\<exists>t. textwrap_fill s (wraplen cfg) = Inr t \<and>
                 display_hover cfg fig df st (Some pt) val =
                   Inr (True, Value (bbox pt), Value (imgs @ [H2 t color] @ cs @ es))))
       \<and> (wraplen cfg < int (length s) \<and> \<not> wrap cfg \<and> 0 \<le> wraplen cfg \<longrightarrow>
            display_hover cfg fig df st (Some pt) val =
              Inr (True, Value (bbox pt),
                   Value (imgs @ [H2 (take (nat (wraplen cfg)) s @ ''...'') color] @ cs @ es)))"
proof (intro conjI impI)
  assume "int (length s) \<le> wraplen cfg"
  then have "title_blocks cfg df st (snd lr) (curveNumber pt) = Inr [H2 s color]"
    by (rule title_blocks_cases(1) [OF col title color])
  then show "display_hover cfg fig df st (Some pt) val =
      Inr (True, Value (bbox pt), Value (imgs @ [H2 s color] @ cs @ es))"
    by (rule display_hover_steps [OF row imgs _ coords caps])
next
  assume a: "wraplen cfg < int (length s) \<and> wrap cfg \<and> 0 < wraplen cfg"
  define t where "t = join [CHR 0x0A] (wrap_loop (nat (wraplen cfg)) [] (split_chunks s))"
  have f: "textwrap_fill s (wraplen cfg) = Inr t"
    using a by (simp add: textwrap_fill_defined t_def)
  have "title_blocks cfg df st (snd lr) (curveNumber pt) = Inr [H2 t color]"
    using a f by (intro title_blocks_cases(2) [OF col title color]) simp_all
  then have "display_hover cfg fig df st (Some pt) val =
      Inr (True, Value (bbox pt), Value (imgs @ [H2 t color] @ cs @ es))"
    by (rule display_hover_steps [OF row imgs _ coords caps])
  with f show "\<exists>t. textwrap_fill s (wraplen cfg) = Inr t \<and>
      display_hover cfg fig df st (Some pt) val =
        Inr (True, Value (bbox pt), Value (imgs @ [H2 t color] @ cs @ es))"
    by blast
next
  assume a: "wraplen cfg < int (length s) \<and> \<not> wrap cfg \<and> 0 \<le> wraplen cfg"
  have "title_blocks cfg df st (snd lr) (curveNumber pt) =
          Inr [H2 (take (nat (wraplen cfg)) s @ ''...'') color]"
    using a by (intro title_blocks_cases(3) [OF col title color]) simp_all
  then show "display_hover cfg fig df st (Some pt) val =
      Inr (True, Value (bbox pt), Value (imgs @ [H2 (take (nat (wraplen cfg)) s @ ''...'') color] @ cs @ es))"
    by (rule display_hover_steps [OF row imgs _ coords caps])
qed

theorem title_threshold_witness:
  "display_hover pair_cfg_wide demo_fig pair_df pair_st (Some pair_pt) (SelList [''smiles'']) =
     Inr (True, Value (10, 20, 30, 40),
          Value [Img (PStr ''svg:CC(=O)O''), H2 ''acetic acid'' (PStr ''black''),
                 P ''mw: 60'', P ''name : acetic acid'', P ''mw : 60''])
   \<and> display_hover pair_cfg demo_fig pair_df pair_st (Some pair_pt) (SelList [''smiles'']) =
     Inr (True, Value (10, 20, 30, 40),
          Value [Img (PStr ''svg:CC(=O)O''), H2 (''acetic'' @ [CHR 0x0A] @ ''acid'') (PStr ''black''),
                 P ''mw: 60'', P ''name : acetic acid'', P ''mw : 60''])
   \<and> display_hover pair_cfg_cut demo_fig pair_df pair_st (Some pair_pt) (SelList [''smiles'']) =
     Inr (True, Value (10, 20, 30, 40),
          Value [Img (PStr ''svg:CC(=O)O''), H2 ''acetic aci...'' (PStr ''black''),
                 P ''mw: 60'', P ''name : acetic acid'', P ''mw : 60''])"
proof -
  define lr where "lr = rows pair_df ! 2"
  define imgs where "imgs = [Img (PStr ''svg:CC(=O)O'')]"
  define cs where "cs = [P ''mw: 60'', P ''name : acetic acid'']"
  define es where "es = [P ''mw : 60'']"
  have row: "resolve_row pair_cfg_wide demo_fig pair_df pair_st (curveNumber pair_pt) (pointNumber pair_pt) = Inr lr"
      "resolve_row pair_cfg demo_fig pair_df pair_st (curveNumber pair_pt) (pointNumber pair_pt) = Inr lr"
      "resolve_row pair_cfg_cut demo_fig pair_df pair_st (curveNumber pair_pt) (pointNumber pair_pt) = Inr lr"
    unfolding lr_def by code_simp+
  have imgs: "(if show_img pair_cfg_wide
               then image_blocks pair_df pair_st (SelList [''smiles'']) (snd lr) (smiles_cols pair_cfg_wide)
               else Inr []) = Inr imgs"
      "(if show_img pair_cfg
               then image_blocks pair_df pair_st (SelList [''smiles'']) (snd lr) (smiles_cols pair_cfg)
               else Inr []) = Inr imgs"
      "(if show_img pair_cfg_cut
               then image_blocks pair_df pair_st (SelList [''smiles'']) (snd lr) (smiles_cols pair_cfg_cut)
               else Inr []) = Inr imgs"
    unfolding lr_def imgs_def by code_simp+
  have coords: "coord_blocks pair_cfg_wide demo_fig pair_pt = Inr cs"
      "coord_blocks pair_cfg demo_fig pair_pt = Inr cs"
      "coord_blocks pair_cfg_cut demo_fig pair_pt = Inr cs"
    unfolding cs_def by code_simp+
  have caps: "caption_blocks pair_cfg_wide pair_df (snd lr) = Inr es"
      "caption_blocks pair_cfg pair_df (snd lr) = Inr es"
      "caption_blocks pair_cfg_cut pair_df (snd lr) = Inr es"
    unfolding lr_def es_def by code_simp+
  have col: "title_col pair_cfg_wide = Some ''name''" "title_col pair_cfg = Some ''name''"
      "title_col pair_cfg_cut = Some ''name''" by code_simp+
  have h: "has_column pair_df ''name''" by code_simp
  have s: "cell (snd lr) ''name'' = PStr ''acetic acid''" unfolding lr_def by code_simp
  have k: "dict_get (colors pair_st) (curveNumber pair_pt) = Inr (PStr ''black'')" by code_simp
  have l: "int (length ''acetic acid'') \<le> wraplen pair_cfg_wide"
      "wraplen pair_cfg < int (length ''acetic acid'') \<and> wrap pair_cfg \<and> 0 < wraplen pair_cfg"
      "wraplen pair_cfg_cut < int (length ''acetic acid'') \<and> \<not> wrap pair_cfg_cut \<and> 0 \<le> wraplen pair_cfg_cut"
    by code_simp+
  have f: "textwrap_fill ''acetic acid'' (wraplen pair_cfg) = Inr (''acetic'' @ [CHR 0x0A] @ ''acid'')"
    by code_simp
  have t: "take (nat (wraplen pair_cfg_cut)) ''acetic acid'' @ ''...'' = ''acetic aci...''" by code_simp
  have b: "bbox pair_pt = (10, 20, 30, 40)" by code_simp
  from title_threshold [OF row(1) imgs(1) coords(1) caps(1) col(1) h s k] l(1)
  have 1: "display_hover pair_cfg_wide demo_fig pair_df pair_st (Some pair_pt) (SelList [''smiles'']) =
     Inr (True, Value (bbox pair_pt), Value (imgs @ [H2 ''acetic acid'' (PStr ''black'')] @ cs @ es))"
    by blast
  from title_threshold [OF row(2) imgs(2) coords(2) caps(2) col(2) h s k] l(2) f
  have 2: "display_hover pair_cfg demo_fig pair_df pair_st (Some pair_pt) (SelList [''smiles'']) =
     Inr (True, Value (bbox pair_pt), Value (imgs @ [H2 (''acetic'' @ [CHR 0x0A] @ ''acid'') (PStr ''black'')] @ cs @ es))"
    by auto
  from title_threshold [OF row(3) imgs(3) coords(3) caps(3) col(3) h s k] l(3) t
  have 3: "display_hover pair_cfg_cut demo_fig pair_df pair_st (Some pair_pt) (SelList [''smiles'']) =
     Inr (True, Value (bbox pair_pt), Value (imgs @ [H2 ''acetic aci...'' (PStr ''black'')] @ cs @ es))"
    by auto
  from 1 2 3 show ?thesis by (simp add: b imgs_def cs_def es_def)
qed

subsection \<open>C8: the lines of a wrapped title\<close>

text \<open>
  C8, as amended. A title longer than a positive \<open>wraplen\<close>, with \<open>wrap\<close> on, is emitted as the
  lines of \<open>textwrap.wrap\<close> joined by line feeds. No line is longer than \<open>wraplen\<close>, and no line
  holds a line feed. \<open>textwrap\<close> cuts the text, its whitespace made spaces, into chunks
  (words, the pieces of a hyphenated word, dashes and runs of spaces); when every chunk fits
  the width, each line is made of whole chunks in their order, and the only chunks left out
  are blank, so that every break falls between two chunks. A chunk longer than the width is
  cut to fit (\<open>break_long_words\<close> is on by default). As the claim is written, no line would be
  broken inside a word: a title of one word of 22 letters is emitted on three lines.
\<close>

theorem wrapped_title_lines:
  assumes row: "resolve_row cfg fig df st (curveNumber pt) (pointNumber pt) = Inr lr"
    and imgs: "(if show_img cfg then image_blocks df st val (snd lr) (smiles_cols cfg) else Inr []) = Inr imgs"
    and coords: "coord_blocks cfg fig pt = Inr cs"
    and caps: "caption_blocks cfg df (snd lr) = Inr es"
    and col: "title_col cfg = Some c" "has_column df c"
    and title: "cell (snd lr) c = PStr s"
    and color: "dict_get (colors st) (curveNumber pt) = Inr color"
    and wr: "wrap cfg" and pos: "0 < wraplen cfg" and long: "wraplen cfg < int (length s)"
  shows "\<exists>ls. textwrap_wrap s (wraplen cfg) = Inr ls
           \<and> display_hover cfg fig df st (Some pt) val =
               Inr (True, Value (bbox pt), Value (imgs @ [H2 (join [CHR 0x0A] ls) color] @ cs @ es))
           \<and> (\<forall>l \<in> set ls. length l \<le> nat (wraplen cfg) \<and> CHR 0x0A \<notin> set l)
           \<and> ((\<forall>c \<in> set (split_chunks s). length c \<le> nat (wraplen cfg)) \<longrightarrow>
                (\<exists>groups. ls = map concat groups \<and> subseq (concat groups) (split_chunks s) \<and>
                   filter (\<lambda>c. \<not> is_blank c) (concat groups) =
                   filter (\<lambda>c. \<not> is_blank c) (split_chunks s)))
           \<and> concat (split_chunks s) = munge_whitespace s"
proof -
  define w where "w = nat (wraplen cfg)"
  define ls where "ls = wrap_loop w [] (split_chunks s)"
  have w: "0 < w" using pos by (simp add: w_def)
  have tw: "textwrap_wrap s (wraplen cfg) = Inr ls"
    using pos by (simp add: textwrap_wrap_def wrap_chunks_def ls_def w_def)
  have f: "textwrap_fill s (wraplen cfg) = Inr (join [CHR 0x0A] ls)"
    using pos by (simp add: textwrap_fill_defined ls_def w_def)
  have "title_blocks cfg df st (snd lr) (curveNumber pt) = Inr [H2 (join [CHR 0x0A] ls) color]"
    by (rule title_blocks_cases(2) [OF col title color long wr f])
  then have dh: "display_hover cfg fig df st (Some pt) val =
      Inr (True, Value (bbox pt), Value (imgs @ [H2 (join [CHR 0x0A] ls) color] @ cs @ es))"
    by (rule display_hover_steps [OF row imgs _ coords caps])
  have wd: "\<forall>l \<in> set ls. length l \<le> w"
    unfolding ls_def by (rule wrap_loop_width [OF w]) simp
  have lf: "\<forall>l \<in> set ls. CHR 0x0A \<notin> set l"
    unfolding ls_def by (rule wrap_loop_chars) (simp_all add: split_chunks_no_line_feed)
  have fit: "\<exists>groups. ls = map concat groups \<and> subseq (concat groups) (split_chunks s) \<and>
                   filter (\<lambda>c. \<not> is_blank c) (concat groups) =
                   filter (\<lambda>c. \<not> is_blank c) (split_chunks s)"
    if "\<forall>c \<in> set (split_chunks s). length c \<le> w"
    using wrap_loop_fitting [OF that, of "[]"] by (simp add: ls_def)
  show ?thesis
  proof (rule exI [of _ ls], intro conjI)
    show "textwrap_wrap s (wraplen cfg) = Inr ls" by (rule tw)
    show "display_hover cfg fig df st (Some pt) val =
      Inr (True, Value (bbox pt), Value (imgs @ [H2 (join [CHR 0x0A] ls) color] @ cs @ es))"
      by (rule dh)
    show "\<forall>l \<in> set ls. length l \<le> nat (wraplen cfg) \<and> CHR 0x0A \<notin> set l"
      using wd lf by (simp add: w_def)
    show "(\<forall>c \<in> set (split_chunks s). length c \<le> nat (wraplen cfg)) \<longrightarrow>
                (\<exists>groups. ls = map concat groups \<and> subseq (concat groups) (split_chunks s) \<and>
                   filter (\<lambda>c. \<not> is_blank c) (concat groups) =
                   filter (\<lambda>c. \<not> is_blank c) (split_chunks s))"
      using fit by (simp add: w_def)
    show "concat (split_chunks s) = munge_whitespace s" by (rule split_chunks_concat)
  qed
qed

theorem wrapped_title_lines_witness:
  "textwrap_wrap ''acetic acid'' 10 = Inr [''acetic'', ''acid'']
   \<and> display_hover pair_cfg demo_fig pair_df pair_st (Some pair_pt) (SelList [''smiles'']) =
       Inr (True, Value (10, 20, 30, 40),
            Value [Img (PStr ''svg:CC(=O)O''), H2 (join [CHR 0x0A] [''acetic'', ''acid'']) (PStr ''black''),
                   P ''mw: 60'', P ''name : acetic acid'', P ''mw : 60''])
   \<and> length ''acetic'' \<le> (10::nat) \<and> length ''acid'' \<le> (10::nat)
   \<and> CHR 0x0A \<notin> set ''acetic'' \<and> CHR 0x0A \<notin> set ''acid''
   \<and> (\<exists>groups. [''acetic'', ''acid''] = map concat groups \<and>
         subseq (concat groups) [''acetic'', '' '', ''acid''] \<and>
         filter (\<lambda>c. \<not> is_blank c) (concat groups) = [''acetic'', ''acid''])"
proof -
  define lr where "lr = rows pair_df ! 2"
  define imgs where "imgs = [Img (PStr ''svg:CC(=O)O'')]"
  define cs where "cs = [P ''mw: 60'', P ''name : acetic acid'']"
  define es where "es = [P ''mw : 60'']"
  have row: "resolve_row pair_cfg demo_fig pair_df pair_st (curveNumber pair_pt) (pointNumber pair_pt) = Inr lr"
    unfolding lr_def by code_simp
  have imgs: "(if show_img pair_cfg
               then image_blocks pair_df pair_st (SelList [''smiles'']) (snd lr) (smiles_cols pair_cfg)
               else Inr []) = Inr imgs"
    unfolding lr_def imgs_def by code_simp
  have coords: "coord_blocks pair_cfg demo_fig pair_pt = Inr cs"
    unfolding cs_def by code_simp
  have caps: "caption_blocks pair_cfg pair_df (snd lr) = Inr es"
    unfolding lr_def es_def by code_simp
  have col: "title_col pair_cfg = Some ''name''" by code_simp
  have h: "has_column pair_df ''name''" by code_simp
  have s: "cell (snd lr) ''name'' = PStr ''acetic acid''" unfolding lr_def by code_simp
  have k: "dict_get (colors pair_st) (curveNumber pair_pt) = Inr (PStr ''black'')" by code_simp
  have wr: "wrap pair_cfg" by code_simp
  have pos: "0 < wraplen pair_cfg" by code_simp
  have long: "wraplen pair_cfg < int (length ''acetic acid'')" by code_simp
  have wl: "wraplen pair_cfg = 10" by code_simp
  have tw: "textwrap_wrap ''acetic acid'' 10 = Inr [''acetic'', ''acid'']" by code_simp
  have ch: "split_chunks ''acetic acid'' = [''acetic'', '' '', ''acid'']" by code_simp
  have nb: "filter (\<lambda>c. \<not> is_blank c) [''acetic'', '' '', ''acid''] = [''acetic'', ''acid'']"
    by code_simp
  have b: "bbox pair_pt = (10, 20, 30, 40)" by code_simp
  from wrapped_title_lines [OF row imgs coords caps col h s k wr pos long]
  obtain ls where r: "textwrap_wrap ''acetic acid'' (wraplen pair_cfg) = Inr ls"
      "display_hover pair_cfg demo_fig pair_df pair_st (Some pair_pt) (SelList [''smiles'']) =
         Inr (True, Value (bbox pair_pt), Value (imgs @ [H2 (join [CHR 0x0A] ls) (PStr ''black'')] @ cs @ es))"
      "\<forall>l \<in> set ls. length l \<le> nat (wraplen pair_cfg) \<and> CHR 0x0A \<notin> set l"
      "(\<forall>c \<in> set (split_chunks ''acetic acid''). length c \<le> nat (wraplen pair_cfg)) \<longrightarrow>
         (\<exists>groups. ls = map concat groups \<and> subseq (concat groups) (split_chunks ''acetic acid'') \<and>
            filter (\<lambda>c. \<not> is_blank c) (concat groups) =
            filter (\<lambda>c. \<not> is_blank c) (split_chunks ''acetic acid''))"
    by blast
  have ls: "ls = [''acetic'', ''acid'']" using r(1) tw by (simp add: wl)
  have "\<forall>c \<in> set (split_chunks ''acetic acid''). length c \<le> nat (wraplen pair_cfg)"
    by (simp add: ch wl)
  with r(4) have g: "\<exists>groups. [''acetic'', ''acid''] = map concat groups \<and>
         subseq (concat groups) [''acetic'', '' '', ''acid''] \<and>
         filter (\<lambda>c. \<not> is_blank c) (concat groups) = [''acetic'', ''acid'']"
    unfolding ls ch nb by blast
  have d: "display_hover pair_cfg demo_fig pair_df pair_st (Some pair_pt) (SelList [''smiles'']) =
       Inr (True, Value (10, 20, 30, 40),
            Value [Img (PStr ''svg:CC(=O)O''), H2 (join [CHR 0x0A] [''acetic'', ''acid'']) (PStr ''black''),
                   P ''mw: 60'', P ''name : acetic acid'', P ''mw : 60''])"
    using r(2) unfolding ls by (simp add: b imgs_def cs_def es_def)
  have l: "length ''acetic'' \<le> (10::nat) \<and> length ''acid'' \<le> (10::nat)
     \<and> CHR 0x0A \<notin> set ''acetic'' \<and> CHR 0x0A \<notin> set ''acid''"
    using r(3) unfolding ls wl by simp
  from tw d l g show ?thesis by blast
qed

theorem long_word_counterexample:
  "display_hover pair_cfg demo_fig long_df long_st (Some long_pt) (SelStr ''smiles'') =
     Inr (True, Value (10, 20, 30, 40),
          Value [Img (PStr ''svg:NC(=O)C1CCCCC1''),
                 H2 (''cyclohexan'' @ [CHR 0x0A] @ ''ecarboxami'' @ [CHR 0x0A] @ ''de'') (PStr ''black''),
                 P ''mw: 127'', P ''name : cyclohexanecarboxamide'', P ''mw : 127''])
   \<and> split_chunks ''cyclohexanecarboxamide'' = [''cyclohexanecarboxamide'']"
  by code_simp

subsection \<open>C9: caption transforms\<close>

text \<open>
  C9, as amended. Let the row be resolved, the images and the title be built, the extra
  caption columns be columns of the data set, and every transform the callback calls return.
  Then the callback emits, after the images and the title, the two coordinate captions (when
  coordinates are shown) and one caption for each extra column, and every caption whose
  label has a transform registered is the label, \<open>" : "\<close> and the \<open>str\<close> of what the transform
  returns: the raw value enters the block through the transform alone, and a string the
  transform returns is shown as it is. As the claim is written, the raw value would never
  appear unmodified in such a block: it does when the transform returns its argument.
\<close>

theorem transformed_caption:
  assumes row: "resolve_row cfg fig df st (curveNumber pt) (pointNumber pt) = Inr lr"
    and imgs: "(if show_img cfg then image_blocks df st val (snd lr) (smiles_cols cfg) else Inr []) = Inr imgs"
    and title: "title_blocks cfg df st (snd lr) (curveNumber pt) = Inr ts"
    and caps: "caps = (case caption_cols cfg of Some l \<Rightarrow> l | None \<Rightarrow> [])"
    and cols: "\<forall>c \<in> set caps. has_column df c"
    and rx: "\<forall>f. show_coords cfg \<and> transform_for cfg (xaxis_title fig) = Some f \<longrightarrow> (\<exists>out. f (pt_x pt) = Inr out)"
    and ry: "\<forall>f. show_coords cfg \<and> transform_for cfg (yaxis_title fig) = Some f \<longrightarrow> (\<exists>out. f (pt_y pt) = Inr out)"
    and rc: "\<forall>c \<in> set caps. \<forall>f. map_of (caption_transform cfg) c = Some f \<longrightarrow>
               (\<exists>out. f (cell (snd lr) c) = Inr out)"
  shows "\<exists>cs es.
           display_hover cfg fig df st (Some pt) val =
             Inr (True, Value (bbox pt), Value (imgs @ ts @ cs @ es))
         \<and> length cs = (if show_coords cfg then 2 else 0) \<and> length es = length caps
         \<and> (\<forall>f out. show_coords cfg \<and> transform_for cfg (xaxis_title fig) = Some f \<and> f (pt_x pt) = Inr out \<longrightarrow>
               cs ! 0 = P (py_str (xaxis_title fig) @ '' : '' @ py_str out))
         \<and> (\<forall>f out. show_coords cfg \<and> transform_for cfg (yaxis_title fig) = Some f \<and> f (pt_y pt) = Inr out \<longrightarrow>
               cs ! 1 = P (py_str (yaxis_title fig) @ '' : '' @ py_str out))
         \<and> (\<forall>i f out. i < length caps \<and> map_of (caption_transform cfg) (caps ! i) = Some f \<and>
                 f (cell (snd lr) (caps ! i)) = Inr out \<longrightarrow>
               es ! i = P (caps ! i @ '' : '' @ py_str out))"
proof -
  have "\<exists>cs. coord_blocks cfg fig pt = Inr cs \<and> length cs = (if show_coords cfg then 2 else 0)
         \<and> (\<forall>f out. show_coords cfg \<and> transform_for cfg (xaxis_title fig) = Some f \<and> f (pt_x pt) = Inr out \<longrightarrow>
               cs ! 0 = P (py_str (xaxis_title fig) @ '' : '' @ py_str out))
         \<and> (\<forall>f out. show_coords cfg \<and> transform_for cfg (yaxis_title fig) = Some f \<and> f (pt_y pt) = Inr out \<longrightarrow>
               cs ! 1 = P (py_str (yaxis_title fig) @ '' : '' @ py_str out))"
  proof (cases "show_coords cfg")
    case False
    then show ?thesis by (simp add: coord_blocks_def)
  next
    case True
    from rx True have "\<forall>f. transform_for cfg (xaxis_title fig) = Some f \<longrightarrow> (\<exists>out. f (pt_x pt) = Inr out)"
      by blast
    from caption_block_returns [OF this, of "'': ''"] obtain bx where
      bx: "caption_block cfg '': '' (xaxis_title fig) (pt_x pt) = Inr bx"
        "\<forall>f out. transform_for cfg (xaxis_title fig) = Some f \<and> f (pt_x pt) = Inr out \<longrightarrow>
                bx = P (py_str (xaxis_title fig) @ '' : '' @ py_str out)" by blast
    from ry True have "\<forall>f. transform_for cfg (yaxis_title fig) = Some f \<longrightarrow> (\<exists>out. f (pt_y pt) = Inr out)"
      by blast
    from caption_block_returns [OF this, of "'' : ''"] obtain bY where
      bY: "caption_block cfg '' : '' (yaxis_title fig) (pt_y pt) = Inr bY"
        "\<forall>f out. transform_for cfg (yaxis_title fig) = Some f \<and> f (pt_y pt) = Inr out \<longrightarrow>
                bY = P (py_str (yaxis_title fig) @ '' : '' @ py_str out)" by blast
    show ?thesis
    proof (intro exI [of _ "[bx, bY]"] conjI)
      show "coord_blocks cfg fig pt = Inr [bx, bY]"
        using True bx(1) bY(1) by (simp add: coord_blocks_def)
      show "length [bx, bY] = (if show_coords cfg then 2 else 0)" using True by simp
      show "\<forall>f out. show_coords cfg \<and> transform_for cfg (xaxis_title fig) = Some f \<and> f (pt_x pt) = Inr out \<longrightarrow>
               [bx, bY] ! 0 = P (py_str (xaxis_title fig) @ '' : '' @ py_str out)"
        using bx(2) by auto
      show "\<forall>f out. show_coords cfg \<and> transform_for cfg (yaxis_title fig) = Some f \<and> f (pt_y pt) = Inr out \<longrightarrow>
               [bx, bY] ! 1 = P (py_str (yaxis_title fig) @ '' : '' @ py_str out)"
        using bY(2) by auto
    qed
  qed
  then obtain cs where cs: "coord_blocks cfg fig pt = Inr cs" "length cs = (if show_coords cfg then 2 else 0)"
      "\<forall>f out. show_coords cfg \<and> transform_for cfg (xaxis_title fig) = Some f \<and> f (pt_x pt) = Inr out \<longrightarrow>
               cs ! 0 = P (py_str (xaxis_title fig) @ '' : '' @ py_str out)"
      "\<forall>f out. show_coords cfg \<and> transform_for cfg (yaxis_title fig) = Some f \<and> f (pt_y pt) = Inr out \<longrightarrow>
               cs ! 1 = P (py_str (yaxis_title fig) @ '' : '' @ py_str out)"
    by blast
  have each: "\<exists>b. extra_caption cfg df (snd lr) c = Inr b \<and>
             (\<forall>f out. map_of (caption_transform cfg) c = Some f \<and> f (cell (snd lr) c) = Inr out \<longrightarrow>
                b = P (c @ '' : '' @ py_str out))" if c: "c \<in> set caps" for c
  proof -
    have "\<forall>f. transform_for cfg (PStr c) = Some f \<longrightarrow> (\<exists>out. f (cell (snd lr) c) = Inr out)"
      using rc c by (simp add: transform_for_def)
    from caption_block_returns [OF this, of "'' : ''"] show ?thesis
      using cols c by (simp add: extra_caption_block transform_for_def)
  qed
  then have "\<forall>c \<in> set caps. \<exists>b. extra_caption cfg df (snd lr) c = Inr b" by blast
  from collect_returns [OF this] obtain es where
    es: "collect (extra_caption cfg df (snd lr)) caps = Inr es" "length es = length caps"
      "\<forall>i < length caps. extra_caption cfg df (snd lr) (caps ! i) = Inr (es ! i)" by blast
  have cb: "caption_blocks cfg df (snd lr) = Inr es"
  proof (cases "caption_cols cfg")
    case None
    then show ?thesis using caps es by (simp add: caption_blocks_def)
  next
    case (Some l)
    then show ?thesis using caps es by (simp add: caption_blocks_def)
  qed
  have ex: "es ! i = P (caps ! i @ '' : '' @ py_str out)"
    if "i < length caps" "map_of (caption_transform cfg) (caps ! i) = Some f"
       "f (cell (snd lr) (caps ! i)) = Inr out" for i f out
  proof -
    from that(1) have "caps ! i \<in> set caps" by simp
    from each [OF this] that es(3) show ?thesis by auto
  qed
  have "display_hover cfg fig df st (Some pt) val = Inr (True, Value (bbox pt), Value (imgs @ ts @ cs @ es))"
    by (rule display_hover_steps [OF row imgs title cs(1) cb])
  moreover have "\<forall>i f out. i < length caps \<and> map_of (caption_transform cfg) (caps ! i) = Some f \<and>
                 f (cell (snd lr) (caps ! i)) = Inr out \<longrightarrow>
               es ! i = P (caps ! i @ '' : '' @ py_str out)"
    using ex by blast
  ultimately show ?thesis
    using cs(2,3,4) es(2) by (intro exI [of _ cs] exI [of _ es] conjI)
qed

theorem transformed_caption_witness:
  "\<exists>cs es.
     display_hover pair_cfg_units demo_fig pair_df pair_st (Some pair_pt) (SelList [''smiles'', ''solvent'']) =
       Inr (True, Value (10, 20, 30, 40),
            Value ([Img (PStr ''svg:CC(=O)O''), Img (PStr ''svg:O'')] @
                   [H2 (''acetic'' @ [CHR 0x0A] @ ''acid'') (PStr ''black'')] @ cs @ es))
     \<and> length cs = 2 \<and> length es = 1
     \<and> cs ! 0 = P ''mw : 60 g/mol'' \<and> es ! 0 = P ''mw : 60 g/mol''"
proof -
  define lr where "lr = rows pair_df ! 2"
  define imgs where "imgs = [Img (PStr ''svg:CC(=O)O''), Img (PStr ''svg:O'')]"
  define ts where "ts = [H2 (''acetic'' @ [CHR 0x0A] @ ''acid'') (PStr ''black'')]"
  have row: "resolve_row pair_cfg_units demo_fig pair_df pair_st (curveNumber pair_pt) (pointNumber pair_pt) = Inr lr"
    unfolding lr_def by code_simp
  have imgs: "(if show_img pair_cfg_units
               then image_blocks pair_df pair_st (SelList [''smiles'', ''solvent'']) (snd lr) (smiles_cols pair_cfg_units)
               else Inr []) = Inr imgs"
    unfolding lr_def imgs_def by code_simp
  have title: "title_blocks pair_cfg_units pair_df pair_st (snd lr) (curveNumber pair_pt) = Inr ts"
    unfolding lr_def ts_def by code_simp
  have caps: "[''mw''] = (case caption_cols pair_cfg_units of Some l \<Rightarrow> l | None \<Rightarrow> [])"
    by code_simp
  have cols: "\<forall>c \<in> set [''mw'']. has_column pair_df c"
    by (simp add: has_column_def pair_df_def)
  have sc: "show_coords pair_cfg_units" by code_simp
  have tx: "transform_for pair_cfg_units (xaxis_title demo_fig) = Some demo_units"
    by (simp add: transform_for_def pair_cfg_units_def demo_fig_def)
  have ty: "transform_for pair_cfg_units (yaxis_title demo_fig) = None"
    by (simp add: transform_for_def pair_cfg_units_def demo_fig_def)
  have tc: "map_of (caption_transform pair_cfg_units) ''mw'' = Some demo_units"
    by (simp add: pair_cfg_units_def)
  have ox: "demo_units (pt_x pair_pt) = Inr (PStr ''60 g/mol'')" by code_simp
  have oc: "demo_units (cell (snd lr) ''mw'') = Inr (PStr ''60 g/mol'')"
    unfolding lr_def by code_simp
  have rx: "\<forall>f. show_coords pair_cfg_units \<and> transform_for pair_cfg_units (xaxis_title demo_fig) = Some f \<longrightarrow>
              (\<exists>out. f (pt_x pair_pt) = Inr out)"
    using tx ox by auto
  have ry: "\<forall>f. show_coords pair_cfg_units \<and> transform_for pair_cfg_units (yaxis_title demo_fig) = Some f \<longrightarrow>
              (\<exists>out. f (pt_y pair_pt) = Inr out)"
    using ty by simp
  have rc: "\<forall>c \<in> set [''mw'']. \<forall>f. map_of (caption_transform pair_cfg_units) c = Some f \<longrightarrow>
               (\<exists>out. f (cell (snd lr) c) = Inr out)"
    using tc oc by auto
  have b: "bbox pair_pt = (10, 20, 30, 40)" by code_simp
  have t1: "py_str (xaxis_title demo_fig) @ '' : '' @ py_str (PStr ''60 g/mol'') = ''mw : 60 g/mol''"
    by code_simp
  have t2: "[''mw''] ! 0 @ '' : '' @ py_str (PStr ''60 g/mol'') = ''mw : 60 g/mol''"
    by code_simp
  from transformed_caption [OF row imgs title caps cols rx ry rc]
  obtain cs es where r:
      "display_hover pair_cfg_units demo_fig pair_df pair_st (Some pair_pt) (SelList [''smiles'', ''solvent'']) =
         Inr (True, Value (bbox pair_pt), Value (imgs @ ts @ cs @ es))"
      "length cs = (if show_coords pair_cfg_units then 2 else 0)" "length es = length [''mw'']"
      "\<forall>f out. show_coords pair_cfg_units \<and> transform_for pair_cfg_units (xaxis_title demo_fig) = Some f \<and>
          f (pt_x pair_pt) = Inr out \<longrightarrow> cs ! 0 = P (py_str (xaxis_title demo_fig) @ '' : '' @ py_str out)"
      "\<forall>i f out. i < length [''mw''] \<and> map_of (caption_transform pair_cfg_units) ([''mw''] ! i) = Some f \<and>
          f (cell (snd lr) ([''mw''] ! i)) = Inr out \<longrightarrow> es ! i = P ([''mw''] ! i @ '' : '' @ py_str out)"
    by blast
  from r(4) sc tx ox have x: "cs ! 0 = P (py_str (xaxis_title demo_fig) @ '' : '' @ py_str (PStr ''60 g/mol''))"
    by blast
  have "0 < length [''mw''] \<and> map_of (caption_transform pair_cfg_units) ([''mw''] ! 0) = Some demo_units \<and>
          demo_units (cell (snd lr) ([''mw''] ! 0)) = Inr (PStr ''60 g/mol'')"
    using tc oc by simp
  with r(5) have e: "es ! 0 = P ([''mw''] ! 0 @ '' : '' @ py_str (PStr ''60 g/mol''))"
    by blast
  show ?thesis
  proof (rule exI [of _ cs], rule exI [of _ es], intro conjI)
    show "display_hover pair_cfg_units demo_fig pair_df pair_st (Some pair_pt) (SelList [''smiles'', ''solvent'']) =
       Inr (True, Value (10, 20, 30, 40),
            Value ([Img (PStr ''svg:CC(=O)O''), Img (PStr ''svg:O'')] @
                   [H2 (''acetic'' @ [CHR 0x0A] @ ''acid'') (PStr ''black'')] @ cs @ es))"
      using r(1) by (simp add: b imgs_def ts_def)
    show "length cs = 2" using r(2) sc by simp
    show "length es = 1" using r(3) by simp
    show "cs ! 0 = P ''mw : 60 g/mol''" using x by (simp only: t1)
    show "es ! 0 = P ''mw : 60 g/mol''" using e by (simp only: t2)
  qed
qed

theorem identity_transform_counterexample:
  "display_hover pair_cfg_same demo_fig pair_df pair_st (Some pair_pt) (SelStr ''smiles'') =
     Inr (True, Value (10, 20, 30, 40),
          Value [Img (PStr ''svg:CC(=O)O''), H2 (''acetic'' @ [CHR 0x0A] @ ''acid'') (PStr ''black''),
                 P (''mw : '' @ py_str (pt_x pair_pt)), P ''name : acetic acid'',
                 P (''mw : '' @ py_str (cell (snd (rows pair_df ! 2)) ''mw''))])
   \<and> map_of (caption_transform pair_cfg_same) ''mw'' = Some demo_same
   \<and> py_str (pt_x pair_pt) = ''60''"
proof -
  have "map_of (caption_transform pair_cfg_same) ''mw'' = Some demo_same"
    by (simp add: pair_cfg_same_def)
  moreover have "display_hover pair_cfg_same demo_fig pair_df pair_st (Some pair_pt) (SelStr ''smiles'') =
     Inr (True, Value (10, 20, 30, 40),
          Value [Img (PStr ''svg:CC(=O)O''), H2 (''acetic'' @ [CHR 0x0A] @ ''acid'') (PStr ''black''),
                 P (''mw : '' @ py_str (pt_x pair_pt)), P ''name : acetic acid'',
                 P (''mw : '' @ py_str (cell (snd (rows pair_df ! 2)) ''mw''))])"
    by code_simp
  moreover have "py_str (pt_x pair_pt) = ''60''" by code_simp
  ultimately show ?thesis by blast
qed

subsection \<open>C10: boolean series labels\<close>

text \<open>
  C10. When the grouping column has dtype \<open>bool\<close>, the curve dictionary holds for each trace
  whether its label, in lower case, is one of \<open>yes\<close>, \<open>true\<close>, \<open>t\<close>, \<open>1\<close>: such a label in
  any letter case gives \<open>True\<close>, every other string gives \<open>False\<close>, and no string label makes
  the set-up raise.
\<close>

theorem bool_labels_coerced:
  assumes "length (fig_data fig) \<noteq> 1"
    and "color_col cfg = Some c"
    and "column_dtype df c = Inr DBool"
    and "\<forall>t \<in> set (fig_data fig). \<exists>s. trace_name t = PStr s"
  shows "curve_setup parse cfg fig df =
           Inr (map marker_color (fig_data fig),
                map (\<lambda>t. PBool (lower (py_str (trace_name t)) \<in> set [''yes'', ''true'', ''t'', ''1'']))
                    (fig_data fig))"
  using assms by (simp add: curve_setup_def collect_str2bool del: set_simps)

theorem bool_labels_coerced_witness:
  "curve_setup demo_parse demo_cfg_bool demo_fig_labels demo_df =
     Inr ([PStr ''red'', PStr ''blue'', PStr ''green'', PStr ''grey''],
          [PBool True, PBool False, PBool True, PBool False])"
proof -
  have 1: "length (fig_data demo_fig_labels) \<noteq> 1" by code_simp
  have 2: "color_col demo_cfg_bool = Some ''active''" by code_simp
  have 3: "column_dtype demo_df ''active'' = Inr DBool" by code_simp
  have 4: "\<forall>t \<in> set (fig_data demo_fig_labels). \<exists>s. trace_name t = PStr s"
    by (simp add: demo_fig_labels_def)
  have 5: "map marker_color (fig_data demo_fig_labels) = [PStr ''red'', PStr ''blue'', PStr ''green'', PStr ''grey'']"
    by code_simp
  have 6: "map (\<lambda>t. PBool (lower (py_str (trace_name t)) \<in> set [''yes'', ''true'', ''t'', ''1'']))
                    (fig_data demo_fig_labels) = [PBool True, PBool False, PBool True, PBool False]"
    by code_simp
  show ?thesis using bool_labels_coerced [OF 1 2 3 4, of demo_parse] by (simp only: 5 6)
qed


end
